theory Spec2Isabelle
  imports Main "HOL-Library.Sublist" "HOL-Library.Mapping"
begin

section \<open>Go values used by the stack client\<close>

subsection \<open>Slices\<close>

text \<open>
  A Go slice is either \<^verbatim>\<open>nil\<close> or holds a sequence of elements. Both have
  \<^verbatim>\<open>len\<close> zero when empty and both are ranged over without any iteration, but
  they are different values (and marshal differently), so the model keeps them apart.
\<close>

datatype 'a slice = NilSlice | Slice "'a list"

fun elems :: "'a slice \<Rightarrow> 'a list" where
  "elems NilSlice = []"
| "elems (Slice xs) = xs"

definition len :: "'a slice \<Rightarrow> nat" where
  "len s = length (elems s)"

subsection \<open>Errors\<close>

text \<open>
  The error values the client builds: \<^verbatim>\<open>*apiStatusError\<close> (status code and body),
  the plain error of \<^verbatim>\<open>errors.New\<close> and of \<^verbatim>\<open>fmt.Errorf\<close> without
  \<^verbatim>\<open>%w\<close>, and the wrapping error of \<^verbatim>\<open>fmt.Errorf\<close> with \<^verbatim>\<open>%w\<close>, which
  stores the formatted message and the wrapped error.
\<close>

datatype err =
    ApiStatusError int string
  | ErrorString string
  | WrapError string err

text \<open>Decimal formatting of \<^verbatim>\<open>%d\<close>.\<close>

definition digit_char :: "nat \<Rightarrow> char" where
  "digit_char d = ''0123456789'' ! d"

fun nat_dec :: "nat \<Rightarrow> string" where
  "nat_dec n = (if n < 10 then [digit_char n] else nat_dec (n div 10) @ [digit_char (n mod 10)])"

declare nat_dec.simps [simp del]

definition fmt_d :: "int \<Rightarrow> string" where
  "fmt_d i = (if i < 0 then CHR ''-'' # nat_dec (nat (- i)) else nat_dec (nat i))"

text \<open>\<^verbatim>\<open>err.Error()\<close>.\<close>

fun Error :: "err \<Rightarrow> string" where
  "Error (ApiStatusError statusCode body) =
     (if body = [] then ''api returned status '' @ fmt_d statusCode
      else ''api returned status '' @ fmt_d statusCode @ '': '' @ body)"
| "Error (ErrorString s) = s"
| "Error (WrapError msg e) = msg"

text \<open>
  \<^verbatim>\<open>errors.As(err, &apiErr)\<close> with a target of type \<^verbatim>\<open>*apiStatusError\<close>: the first
  status error on the unwrap chain, if any.
\<close>

fun errorsAs :: "err \<Rightarrow> (int \<times> string) option" where
  "errorsAs (ApiStatusError statusCode body) = Some (statusCode, body)"
| "errorsAs (ErrorString s) = None"
| "errorsAs (WrapError msg e) = errorsAs e"

text \<open>\<^verbatim>\<open>fmt.Errorf(prefix + "%w", e)\<close> and \<^verbatim>\<open>fmt.Errorf(prefix + "%w" + suffix, e)\<close>.\<close>

definition Errorf_w :: "string \<Rightarrow> err \<Rightarrow> string \<Rightarrow> err" where
  "Errorf_w pre e post = WrapError (pre @ Error e @ post) e"

subsection \<open>Strings\<close>

text \<open>
  Strings are byte sequences, read as UTF-8 by \<^verbatim>\<open>strings.ToLower\<close>. A byte below 128
  is a character of its own: the letters A to Z are mapped to a to z and every other
  such byte is kept. The bytes from 128 on form the longer encodings; each maximal run
  of them is decoded and lowered by the Unicode tables of the library, whatever
  surrounds it. These tables are not modelled: the function that lowers such a run is a
  parameter. It may well produce bytes below 128, as for the Kelvin sign (the bytes E2
  84 AA), whose lower case is the letter k.
\<close>

definition isASCII :: "char \<Rightarrow> bool" where
  "isASCII c = (\<not> digit7 c)"

definition toLowerChar :: "char \<Rightarrow> char" where
  "toLowerChar c =
     (case map_of (zip ''ABCDEFGHIJKLMNOPQRSTUVWXYZ'' ''abcdefghijklmnopqrstuvwxyz'') c of
        Some l \<Rightarrow> l
      | None \<Rightarrow> c)"

definition lowerRun :: "(string \<Rightarrow> string) \<Rightarrow> string \<Rightarrow> string" where
  "lowerRun lowerNonASCII run = (if run = [] then [] else lowerNonASCII run)"

fun lowerFrom :: "(string \<Rightarrow> string) \<Rightarrow> string \<Rightarrow> string \<Rightarrow> string" where
  "lowerFrom lowerNonASCII run [] = lowerRun lowerNonASCII run"
| "lowerFrom lowerNonASCII run (c # s) =
     (if isASCII c
      then lowerRun lowerNonASCII run @ toLowerChar c # lowerFrom lowerNonASCII [] s
      else lowerFrom lowerNonASCII (run @ [c]) s)"

definition ToLower :: "(string \<Rightarrow> string) \<Rightarrow> string \<Rightarrow> string" where
  "ToLower lowerNonASCII s = lowerFrom lowerNonASCII [] s"

definition Contains :: "string \<Rightarrow> string \<Rightarrow> bool" where
  "Contains s substr = sublist substr s"

definition HasPrefix :: "string \<Rightarrow> string \<Rightarrow> bool" where
  "HasPrefix s p = prefix p s"

definition TrimSuffix :: "string \<Rightarrow> string \<Rightarrow> string" where
  "TrimSuffix s suf = (if suffix suf s then take (length s - length suf) s else s)"

section \<open>Models\<close>

record StackEnvVar =
  Name :: string
  Value :: string

record RegularStack =
  RegularStack_ID :: int
  RegularStack_Name :: string
  RegularStack_Type :: int
  RegularStack_EndpointId :: int
  RegularStack_CreationDate :: int
  RegularStack_Status :: int

record EdgeStack =
  EdgeStack_ID :: int
  EdgeStack_Name :: string
  EdgeStack_CreationDate :: int
  EdgeStack_EdgeGroups :: "int list"

record Stack =
  Stack_ID :: int
  Stack_Name :: string
  Stack_CreatedAt :: string
  Stack_EnvironmentGroupIds :: "int slice"

record stackEnvEntryAlt =
  Alt_Name :: string
  Alt_Value :: string

text \<open>
  Modelled from the spec: \<^verbatim>\<open>models.ConvertRegularStackToStack\<close> is not among the
  sources. The spec converts a regular stack by mapping ID to ID, Name to Name,
  CreationDate to CreatedAt (formatted) and an empty, never null, environment-group list.
  The formatting of the time stamp is a parameter.
\<close>

definition ConvertRegularStackToStack :: "(int \<Rightarrow> string) \<Rightarrow> RegularStack \<Rightarrow> Stack" where
  "ConvertRegularStackToStack formatTime rs =
     \<lparr>Stack_ID = RegularStack_ID rs, Stack_Name = RegularStack_Name rs,
      Stack_CreatedAt = formatTime (RegularStack_CreationDate rs),
      Stack_EnvironmentGroupIds = Slice []\<rparr>"

text \<open>
  Modelled from the spec: \<^verbatim>\<open>models.ConvertEdgeStackToStack\<close> is not among the
  sources. The spec converts an edge stack analogously, with the environment-group list
  taken directly from the edge-group list, never null.
\<close>

definition ConvertEdgeStackToStack :: "(int \<Rightarrow> string) \<Rightarrow> EdgeStack \<Rightarrow> Stack" where
  "ConvertEdgeStackToStack formatTime es =
     \<lparr>Stack_ID = EdgeStack_ID es, Stack_Name = EdgeStack_Name es,
      Stack_CreatedAt = formatTime (EdgeStack_CreationDate es),
      Stack_EnvironmentGroupIds = Slice (EdgeStack_EdgeGroups es)\<rparr>"

text \<open>
  Modelled from the spec: \<^verbatim>\<open>utils.IntToInt64Slice\<close> is not among the sources. The
  edge primitives receive the given group ids, so the conversion keeps every element;
  group ids are unbounded integers here.
\<close>

definition IntToInt64Slice :: "int list \<Rightarrow> int list" where
  "IntToInt64Slice ids = map (\<lambda>i. i) ids"

section \<open>Environment merge\<close>

text \<open>
  The first loop of \<^verbatim>\<open>mergeEnvOverrides\<close>: the state is the map
  \<^verbatim>\<open>overrideValues\<close> and the list \<^verbatim>\<open>overrideOrder\<close>.
\<close>

fun collectOverrides ::
  "StackEnvVar list \<Rightarrow> (string, string) mapping \<times> string list \<Rightarrow>
   (string, string) mapping \<times> string list" where
  "collectOverrides [] st = st"
| "collectOverrides (override # rest) (overrideValues, overrideOrder) =
     (if Name override = [] then collectOverrides rest (overrideValues, overrideOrder)
      else collectOverrides rest
        (Mapping.update (Name override) (Value override) overrideValues,
         if Mapping.lookup overrideValues (Name override) = None
         then overrideOrder @ [Name override] else overrideOrder))"

text \<open>
  The second loop: the state is \<^verbatim>\<open>merged\<close> and the set \<^verbatim>\<open>seen\<close>. An existing
  entry with an empty name is skipped.
\<close>

fun walkExisting ::
  "(string, string) mapping \<Rightarrow> StackEnvVar list \<Rightarrow> StackEnvVar list \<times> string set \<Rightarrow>
   StackEnvVar list \<times> string set" where
  "walkExisting overrideValues [] st = st"
| "walkExisting overrideValues (current # rest) (merged, seen) =
     (if Name current = [] then walkExisting overrideValues rest (merged, seen)
      else case Mapping.lookup overrideValues (Name current) of
        Some overrideValue \<Rightarrow>
          walkExisting overrideValues rest
            (merged @ [\<lparr>Name = Name current, Value = overrideValue\<rparr>],
             insert (Name current) seen)
      | None \<Rightarrow>
          walkExisting overrideValues rest (merged @ [current], insert (Name current) seen))"

text \<open>The third loop, over \<^verbatim>\<open>overrideOrder\<close>.\<close>

fun appendOverrides ::
  "(string, string) mapping \<Rightarrow> string list \<Rightarrow> StackEnvVar list \<times> string set \<Rightarrow>
   StackEnvVar list \<times> string set" where
  "appendOverrides overrideValues [] st = st"
| "appendOverrides overrideValues (name # rest) (merged, seen) =
     (if name \<in> seen then appendOverrides overrideValues rest (merged, seen)
      else appendOverrides overrideValues rest
        (merged @ [\<lparr>Name = name, Value = Mapping.lookup_default [] overrideValues name\<rparr>],
         insert name seen))"

definition mergeEnvOverrides ::
  "StackEnvVar slice \<Rightarrow> StackEnvVar slice \<Rightarrow> StackEnvVar slice" where
  "mergeEnvOverrides existing overrides =
     (if len overrides = 0 then existing
      else
        let (overrideValues, overrideOrder) =
              collectOverrides (elems overrides) (Mapping.empty, [])
        in if Mapping.is_empty overrideValues then existing
           else
             let st = walkExisting overrideValues (elems existing) ([], {})
             in Slice (fst (appendOverrides overrideValues overrideOrder st)))"


section \<open>The outside world\<close>

text \<open>
  The value that a JSON text denotes: the members of an object in the order of the
  text, a number by its literal.
\<close>

datatype json =
    JNull
  | JBool bool
  | JNumber string
  | JString string
  | JArray "json list"
  | JObject "(string \<times> json) list"

text \<open>
  What the client consumes and does not implement: \<^verbatim>\<open>net/http\<close>, the decoders of
  \<^verbatim>\<open>encoding/json\<close> for the list of stacks and for the details of a stack, the
  scanner of \<^verbatim>\<open>encoding/json\<close>, the edge SDK behind
  \<^verbatim>\<open>c.cli\<close>, the formatting of a time stamp, and the Unicode tables by which
  \<^verbatim>\<open>strings.ToLower\<close> lowers a run of bytes from 128 on. A response carries its status
  code and what \<^verbatim>\<open>io.ReadAll\<close> gives for its body: the bytes read and an error, if any.

  For the environment of a stack the decoding is modelled, and the world gives what it
  rests on: the value that a text denotes (none when the text is not JSON), the equality
  of two member names up to case, and the error that \<^verbatim>\<open>json.Unmarshal\<close> returns for
  a target type and a text it cannot store. The declaration of \<^verbatim>\<open>models.StackEnvVar\<close>
  is not among the sources: the JSON names of its fields \<^verbatim>\<open>Name\<close> and \<^verbatim>\<open>Value\<close>, in
  this order and with no further option, are parameters as well.
\<close>

record request =
  Method :: string
  URL :: string
  Header :: "(string \<times> string) list"
  Body :: "string option"
  InsecureSkipVerify :: bool

record response =
  StatusCode :: int
  ReadAll :: "string \<times> err option"

record updatePayload =
  StackFileContent :: string
  Prune :: bool
  PullImage :: bool
  Env :: "StackEnvVar slice"

record world =
  NewRequest :: "string \<Rightarrow> string \<Rightarrow> err option"
  Do :: "request \<Rightarrow> err + response"
  UnmarshalRegularStacks :: "string \<Rightarrow> err + RegularStack slice"
  UnmarshalStackDetails :: "string \<Rightarrow> err + int \<times> string"
  ScanJSON :: "string \<Rightarrow> json option"
  EqualFold :: "string \<Rightarrow> string \<Rightarrow> bool"
  UnmarshalError :: "string \<Rightarrow> string \<Rightarrow> err"
  NameTag :: string
  ValueTag :: string
  MarshalUpdatePayload :: "updatePayload \<Rightarrow> err + string"
  ListEdgeStacks :: "err + EdgeStack list"
  UpdateEdgeStack :: "int \<Rightarrow> string \<Rightarrow> int list \<Rightarrow> err option"
  FormatRFC3339 :: "int \<Rightarrow> string"
  LowerNonASCII :: "string \<Rightarrow> string"

record PortainerClient =
  serverURL :: string
  token :: string
  skipTLSVerify :: bool

text \<open>The outbound calls an operation makes, in order.\<close>

datatype call =
    CallHTTP request
  | CallListEdgeStacks
  | CallUpdateEdgeStack int string "int list"

fun isEdgeCall :: "call \<Rightarrow> bool" where
  "isEdgeCall (CallHTTP r) = False"
| "isEdgeCall CallListEdgeStacks = True"
| "isEdgeCall (CallUpdateEdgeStack i f g) = True"

section \<open>Decoding an environment\<close>

text \<open>
  How \<^verbatim>\<open>json.Unmarshal\<close> stores a text into a slice of structs with the two string
  fields \<^verbatim>\<open>Name\<close> and \<^verbatim>\<open>Value\<close>.

  A member of an object goes to the field whose JSON name is its key and, failing that,
  to the first field whose JSON name equals the key up to case; a member that finds no
  field is skipped. Two fields of the same JSON name hide each other.
\<close>

datatype field = FieldName | FieldValue

definition fieldFor ::
  "(string \<Rightarrow> string \<Rightarrow> bool) \<Rightarrow> string \<Rightarrow> string \<Rightarrow> string \<Rightarrow> field option" where
  "fieldFor equalFold nameTag valueTag key =
     (if nameTag = valueTag then None
      else if key = nameTag then Some FieldName
      else if key = valueTag then Some FieldValue
      else if equalFold key nameTag then Some FieldName
      else if equalFold key valueTag then Some FieldValue
      else None)"

text \<open>
  A string field takes a JSON string, keeps what it holds on \<^verbatim>\<open>null\<close>, and cannot
  take any other value; the second component tells that it could not. The decoder then
  goes on and reports the error at the end.
\<close>

fun storeString :: "json \<Rightarrow> string \<Rightarrow> string \<times> bool" where
  "storeString (JString s) old = (s, False)"
| "storeString JNull old = (old, False)"
| "storeString v old = (old, True)"

fun decodeObject ::
  "(string \<Rightarrow> field option) \<Rightarrow> (string \<times> json) list \<Rightarrow> (string \<times> string) \<times> bool \<Rightarrow>
   (string \<times> string) \<times> bool" where
  "decodeObject fieldOf [] st = st"
| "decodeObject fieldOf ((key, v) # rest) ((name, val), failed) =
     (case fieldOf key of
        None \<Rightarrow> decodeObject fieldOf rest ((name, val), failed)
      | Some FieldName \<Rightarrow>
          (let (name', bad) = storeString v name
           in decodeObject fieldOf rest ((name', val), failed \<or> bad))
      | Some FieldValue \<Rightarrow>
          (let (val', bad) = storeString v val
           in decodeObject fieldOf rest ((name, val'), failed \<or> bad)))"

text \<open>
  An element of the array that is an object fills a struct, \<^verbatim>\<open>null\<close> leaves the
  struct blank and any other value is an error. An array gives a slice of one struct for
  each element, which is never nil; \<^verbatim>\<open>null\<close> gives the nil slice; any other value is
  an error.
\<close>

definition decodeElement :: "(string \<Rightarrow> field option) \<Rightarrow> json \<Rightarrow> (string \<times> string) \<times> bool" where
  "decodeElement fieldOf v =
     (case v of
        JObject members \<Rightarrow> decodeObject fieldOf members (([], []), False)
      | JNull \<Rightarrow> (([], []), False)
      | _ \<Rightarrow> (([], []), True))"

definition decodeSlice :: "(string \<Rightarrow> field option) \<Rightarrow> json \<Rightarrow> (string \<times> string) slice option" where
  "decodeSlice fieldOf v =
     (case v of
        JArray vs \<Rightarrow>
          (let decoded = map (decodeElement fieldOf) vs
           in if list_ex snd decoded then None else Some (Slice (map fst decoded)))
      | JNull \<Rightarrow> Some NilSlice
      | _ \<Rightarrow> None)"

definition unmarshalEntries ::
  "world \<Rightarrow> string \<Rightarrow> (string \<Rightarrow> field option) \<Rightarrow> string \<Rightarrow> err + (string \<times> string) slice" where
  "unmarshalEntries w target fieldOf raw =
     (case ScanJSON w raw of
        None \<Rightarrow> Inl (UnmarshalError w target raw)
      | Some v \<Rightarrow>
          (case decodeSlice fieldOf v of
             None \<Rightarrow> Inl (UnmarshalError w target raw)
           | Some entries \<Rightarrow> Inr entries))"

text \<open>\<^verbatim>\<open>json.Unmarshal(raw, &env)\<close> with \<^verbatim>\<open>env\<close> of type \<^verbatim>\<open>[]models.StackEnvVar\<close>.\<close>

definition unmarshalStackEnv :: "world \<Rightarrow> string \<Rightarrow> err + StackEnvVar slice" where
  "unmarshalStackEnv w raw =
     (case unmarshalEntries w ''[]models.StackEnvVar''
             (fieldFor (EqualFold w) (NameTag w) (ValueTag w)) raw of
        Inl e \<Rightarrow> Inl e
      | Inr entries \<Rightarrow> Inr (map_slice (\<lambda>(n, v). \<lparr>Name = n, Value = v\<rparr>) entries))"

text \<open>\<^verbatim>\<open>json.Unmarshal(raw, &alt)\<close> with \<^verbatim>\<open>alt\<close> of type \<^verbatim>\<open>[]stackEnvEntryAlt\<close>, whose
  fields are tagged \<^verbatim>\<open>Name\<close> and \<^verbatim>\<open>Value\<close>.\<close>

definition unmarshalStackEnvAlt :: "world \<Rightarrow> string \<Rightarrow> err + stackEnvEntryAlt slice" where
  "unmarshalStackEnvAlt w raw =
     (case unmarshalEntries w ''[]stackEnvEntryAlt''
             (fieldFor (EqualFold w) ''Name'' ''Value'') raw of
        Inl e \<Rightarrow> Inl e
      | Inr entries \<Rightarrow> Inr (map_slice (\<lambda>(n, v). \<lparr>Alt_Name = n, Alt_Value = v\<rparr>) entries))"

section \<open>Environment codec\<close>

fun hasEnvValues :: "StackEnvVar list \<Rightarrow> bool" where
  "hasEnvValues [] = False"
| "hasEnvValues (entry # rest) =
     (if Name entry \<noteq> [] \<or> Value entry \<noteq> [] then True else hasEnvValues rest)"

definition parseStackEnv :: "world \<Rightarrow> string \<Rightarrow> err + StackEnvVar slice" where
  "parseStackEnv w raw =
     (if length raw = 0 \<or> raw = ''null'' then Inr NilSlice
      else
        case (case unmarshalStackEnv w raw of
                Inr env \<Rightarrow> if len env = 0 \<or> hasEnvValues (elems env) then Some env else None
              | Inl e \<Rightarrow> None) of
          Some env \<Rightarrow> Inr env
        | None \<Rightarrow>
            (case unmarshalStackEnvAlt w raw of
               Inl e \<Rightarrow> Inl (Errorf_w ''failed to parse stack env: '' e [])
             | Inr alt \<Rightarrow>
                 if len alt = 0 then Inr NilSlice
                 else Inr (Slice (map (\<lambda>entry. \<lparr>Name = Alt_Name entry, Value = Alt_Value entry\<rparr>)
                                      (elems alt)))))"

section \<open>Transport\<close>

text \<open>The base URL: \<^verbatim>\<open>https://\<close> is prefixed when no scheme is present, and one
  trailing slash is trimmed.\<close>

definition apiBase :: "string \<Rightarrow> string" where
  "apiBase url =
     TrimSuffix
       (if \<not> HasPrefix url ''http://'' \<and> \<not> HasPrefix url ''https://''
        then ''https://'' @ url else url)
       ''/''"

definition listRegularStacksHTTP ::
  "world \<Rightarrow> PortainerClient \<Rightarrow> (err + RegularStack slice) \<times> call list" where
  "listRegularStacksHTTP w c =
     (let apiURL = apiBase (serverURL c) @ ''/api/stacks'' in
      case NewRequest w ''GET'' apiURL of
        Some e \<Rightarrow> (Inl (Errorf_w ''failed to create request: '' e []), [])
      | None \<Rightarrow>
          let req = \<lparr>Method = ''GET'', URL = apiURL, Header = [(''X-API-Key'', token c)],
                     Body = None, InsecureSkipVerify = skipTLSVerify c\<rparr>
          in (case Do w req of
                Inl e \<Rightarrow> Inl (Errorf_w ''failed to make http request: '' e [])
              | Inr resp \<Rightarrow>
                  if StatusCode resp \<noteq> 200
                  then Inl (ErrorString (''api returned status '' @ fmt_d (StatusCode resp)
                                         @ '': '' @ fst (ReadAll resp)))
                  else (case snd (ReadAll resp) of
                          Some e \<Rightarrow> Inl (Errorf_w ''failed to read response body: '' e [])
                        | None \<Rightarrow>
                            (case UnmarshalRegularStacks w (fst (ReadAll resp)) of
                               Inl e \<Rightarrow> Inl (Errorf_w ''failed to parse response json: '' e [])
                             | Inr stacks \<Rightarrow> Inr stacks)),
              [CallHTTP req]))"

definition getRegularStackDetailsHTTP ::
  "world \<Rightarrow> PortainerClient \<Rightarrow> int \<Rightarrow> (err + int \<times> StackEnvVar slice) \<times> call list" where
  "getRegularStackDetailsHTTP w c sid =
     (let apiURL = apiBase (serverURL c) @ ''/api/stacks/'' @ fmt_d sid in
      case NewRequest w ''GET'' apiURL of
        Some e \<Rightarrow> (Inl (Errorf_w ''failed to create request: '' e []), [])
      | None \<Rightarrow>
          let req = \<lparr>Method = ''GET'', URL = apiURL, Header = [(''X-API-Key'', token c)],
                     Body = None, InsecureSkipVerify = skipTLSVerify c\<rparr>
          in (case Do w req of
                Inl e \<Rightarrow> Inl (Errorf_w ''failed to make http request: '' e [])
              | Inr resp \<Rightarrow>
                  if StatusCode resp \<noteq> 200
                  then Inl (ApiStatusError (StatusCode resp) (fst (ReadAll resp)))
                  else (case snd (ReadAll resp) of
                          Some e \<Rightarrow> Inl (Errorf_w ''failed to read response body: '' e [])
                        | None \<Rightarrow>
                            (case UnmarshalStackDetails w (fst (ReadAll resp)) of
                               Inl e \<Rightarrow> Inl (Errorf_w ''failed to parse response json: '' e [])
                             | Inr (endpointId, rawEnv) \<Rightarrow>
                                 (case parseStackEnv w rawEnv of
                                    Inl e \<Rightarrow> Inl e
                                  | Inr env \<Rightarrow> Inr (endpointId, env)))),
              [CallHTTP req]))"

definition updateRegularStackHTTP ::
  "world \<Rightarrow> PortainerClient \<Rightarrow> int \<Rightarrow> int \<Rightarrow> string \<Rightarrow> StackEnvVar slice \<Rightarrow>
   err option \<times> call list" where
  "updateRegularStackHTTP w c sid endpointId file env =
     (let apiURL = apiBase (serverURL c) @ ''/api/stacks/'' @ fmt_d sid
                   @ ''?endpointId='' @ fmt_d endpointId;
          payload = \<lparr>StackFileContent = file, Prune = False, PullImage = False, Env = env\<rparr>
      in case MarshalUpdatePayload w payload of
        Inl e \<Rightarrow> (Some (Errorf_w ''failed to marshal stack update request: '' e []), [])
      | Inr body \<Rightarrow>
          (case NewRequest w ''PUT'' apiURL of
             Some e \<Rightarrow> (Some (Errorf_w ''failed to create request: '' e []), [])
           | None \<Rightarrow>
               let req = \<lparr>Method = ''PUT'', URL = apiURL,
                          Header = [(''X-API-Key'', token c),
                                    (''Content-Type'', ''application/json'')],
                          Body = Some body, InsecureSkipVerify = skipTLSVerify c\<rparr>
               in (case Do w req of
                     Inl e \<Rightarrow> Some (Errorf_w ''failed to make http request: '' e [])
                   | Inr resp \<Rightarrow>
                       if StatusCode resp < 200 \<or> StatusCode resp \<ge> 300
                       then Some (ApiStatusError (StatusCode resp) (fst (ReadAll resp)))
                       else None,
                   [CallHTTP req])))"

section \<open>Fallback classifier\<close>

definition isEdgeStackErrorMessage :: "world \<Rightarrow> string \<Rightarrow> bool" where
  "isEdgeStackErrorMessage w message =
     (let lower = ToLower (LowerNonASCII w) message
      in Contains lower ''edgestackupdate'' \<or> Contains lower ''edge stack'')"

definition shouldFallbackToEdge :: "world \<Rightarrow> err \<Rightarrow> bool" where
  "shouldFallbackToEdge w e =
     (case errorsAs e of
        Some (statusCode, body) \<Rightarrow>
          if statusCode = 404 then True
          else if isEdgeStackErrorMessage w body then True
          else isEdgeStackErrorMessage w (Error e)
      | None \<Rightarrow> isEdgeStackErrorMessage w (Error e))"

section \<open>The public operations\<close>

definition GetStacks :: "world \<Rightarrow> PortainerClient \<Rightarrow> (err + Stack slice) \<times> call list" where
  "GetStacks w c =
     (let (regular, calls) = listRegularStacksHTTP w c
      in case (case regular of
                 Inr regularStacks \<Rightarrow> if len regularStacks > 0 then Some regularStacks else None
               | Inl e \<Rightarrow> None) of
           Some regularStacks \<Rightarrow>
             (Inr (Slice (map (ConvertRegularStackToStack (FormatRFC3339 w))
                            (elems regularStacks))), calls)
         | None \<Rightarrow>
             (case ListEdgeStacks w of
                Inl edgeErr \<Rightarrow>
                  (case regular of
                     Inl e \<Rightarrow>
                       Inl (WrapError (''failed to list regular stacks: '' @ Error e
                                       @ '' (edge stacks also failed: '' @ Error edgeErr @ '')'') e)
                   | Inr regularStacks \<Rightarrow>
                       Inl (Errorf_w ''failed to list edge stacks: '' edgeErr []))
              | Inr edgeStacks \<Rightarrow>
                  Inr (Slice (map (ConvertEdgeStackToStack (FormatRFC3339 w)) edgeStacks)),
              calls @ [CallListEdgeStacks]))"

text \<open>The loop of \<^verbatim>\<open>GetStackEnvNames\<close>: the state is \<^verbatim>\<open>names\<close> and \<^verbatim>\<open>seen\<close>.\<close>

fun collectNames :: "StackEnvVar list \<Rightarrow> string list \<times> string set \<Rightarrow> string list \<times> string set" where
  "collectNames [] st = st"
| "collectNames (entry # rest) (names, seen) =
     (if Name entry = [] \<or> Name entry \<in> seen then collectNames rest (names, seen)
      else collectNames rest (names @ [Name entry], insert (Name entry) seen))"

definition GetStackEnvNames ::
  "world \<Rightarrow> PortainerClient \<Rightarrow> int \<Rightarrow> (err + string slice) \<times> call list" where
  "GetStackEnvNames w c sid =
     (if serverURL c = [] \<or> token c = []
      then (Inl (ErrorString ''stack env names require server url and token''), [])
      else
        let (details, calls) = getRegularStackDetailsHTTP w c sid
        in (case details of
              Inl e \<Rightarrow>
                if shouldFallbackToEdge w e
                then Inl (ErrorString ''stack env names are not available for edge stacks'')
                else Inl (Errorf_w ''failed to get stack details: '' e [])
            | Inr (endpointId, env) \<Rightarrow> Inr (Slice (fst (collectNames (elems env) ([], {})))),
            calls))"

text \<open>
  The fallback of \<^verbatim>\<open>UpdateStack\<close> on an error of the regular path, written twice in
  the source with a different message prefix: overrides are rejected, otherwise the edge
  update is called.
\<close>

definition updateFallback ::
  "world \<Rightarrow> string \<Rightarrow> err \<Rightarrow> int \<Rightarrow> string \<Rightarrow> int list \<Rightarrow> StackEnvVar slice \<Rightarrow>
   err option \<times> call list" where
  "updateFallback w pre e sid file environmentGroupIds envOverrides =
     (if shouldFallbackToEdge w e then
        if len envOverrides > 0
        then (Some (ErrorString ''stack env overrides are not supported for edge stacks''), [])
        else
          (case UpdateEdgeStack w sid file (IntToInt64Slice environmentGroupIds) of
             Some edgeErr \<Rightarrow>
               Some (WrapError (pre @ Error e @ '' (edge stack also failed: ''
                                @ Error edgeErr @ '')'') e)
           | None \<Rightarrow> None,
           [CallUpdateEdgeStack sid file (IntToInt64Slice environmentGroupIds)])
      else (Some (Errorf_w pre e []), []))"

definition UpdateStack ::
  "world \<Rightarrow> PortainerClient \<Rightarrow> int \<Rightarrow> string \<Rightarrow> int list \<Rightarrow> StackEnvVar slice \<Rightarrow>
   err option \<times> call list" where
  "UpdateStack w c sid file environmentGroupIds envOverrides =
     (if serverURL c \<noteq> [] \<and> token c \<noteq> [] then
        let (details, calls1) = getRegularStackDetailsHTTP w c sid
        in case details of
          Inr (endpointId, env) \<Rightarrow>
            let mergedEnv = mergeEnvOverrides env envOverrides;
                (updErr, calls2) = updateRegularStackHTTP w c sid endpointId file mergedEnv
            in (case updErr of
                  None \<Rightarrow> (None, calls1 @ calls2)
                | Some e \<Rightarrow>
                    let (r, calls3) = updateFallback w ''failed to update regular stack: '' e
                                        sid file environmentGroupIds envOverrides
                    in (r, calls1 @ calls2 @ calls3))
        | Inl e \<Rightarrow>
            let (r, calls3) = updateFallback w ''failed to get regular stack details: '' e
                                sid file environmentGroupIds envOverrides
            in (r, calls1 @ calls3)
      else if len envOverrides > 0
      then (Some (ErrorString ''stack env overrides require a Portainer server url and token''), [])
      else
        (case UpdateEdgeStack w sid file (IntToInt64Slice environmentGroupIds) of
           Some e \<Rightarrow> Some (Errorf_w ''failed to update edge stack: '' e [])
         | None \<Rightarrow> None,
         [CallUpdateEdgeStack sid file (IntToInt64Slice environmentGroupIds)]))"

section \<open>The tool handler\<close>

text \<open>
  A value of type \<^verbatim>\<open>any\<close> as the handler inspects it: a string, a
  \<^verbatim>\<open>map[string]any\<close>, \<^verbatim>\<open>nil\<close>, or a value of some other dynamic type.
\<close>

datatype goany =
    AnyNil
  | AnyString string
  | AnyMap "string \<Rightarrow> goany option"
  | AnyOther nat

text \<open>Indexing a \<^verbatim>\<open>map[string]any\<close>: a missing key gives \<^verbatim>\<open>nil\<close>.\<close>

definition mapIndex :: "(string \<Rightarrow> goany option) \<Rightarrow> string \<Rightarrow> goany" where
  "mapIndex m k = (case m k of Some v \<Rightarrow> v | None \<Rightarrow> AnyNil)"

text \<open>
  The loop of \<^verbatim>\<open>parseStackEnvOverrides\<close>; \<open>fmtV\<close> is the \<^verbatim>\<open>%v\<close> formatting of
  a value.
\<close>

fun parseEntries ::
  "(goany \<Rightarrow> string) \<Rightarrow> goany list \<Rightarrow> StackEnvVar list \<Rightarrow> err + StackEnvVar list" where
  "parseEntries fmtV [] result = Inr result"
| "parseEntries fmtV (entry # rest) result =
     (case entry of
        AnyMap entryMap \<Rightarrow>
          (case mapIndex entryMap ''name'' of
             AnyString name \<Rightarrow>
               if name = []
               then Inl (ErrorString (''invalid env name: '' @ fmtV (mapIndex entryMap ''name'')))
               else
                 (case mapIndex entryMap ''value'' of
                    AnyString val \<Rightarrow>
                      parseEntries fmtV rest (result @ [\<lparr>Name = name, Value = val\<rparr>])
                  | _ \<Rightarrow>
                      Inl (ErrorString (''invalid env value: ''
                                        @ fmtV (mapIndex entryMap ''value''))))
           | _ \<Rightarrow> Inl (ErrorString (''invalid env name: '' @ fmtV (mapIndex entryMap ''name''))))
      | _ \<Rightarrow> Inl (ErrorString (''invalid env override: '' @ fmtV entry)))"

definition parseStackEnvOverrides ::
  "(goany \<Rightarrow> string) \<Rightarrow> goany slice \<Rightarrow> err + StackEnvVar slice" where
  "parseStackEnvOverrides fmtV entries =
     (if len entries = 0 then Inr (Slice [])
      else case parseEntries fmtV (elems entries) [] of
        Inl e \<Rightarrow> Inl e
      | Inr result \<Rightarrow> Inr (Slice result))"

text \<open>
  What \<^verbatim>\<open>HandleUpdateStack\<close> is given: the parameter parser of \<^verbatim>\<open>toolgen\<close> on
  the request, the \<^verbatim>\<open>%v\<close> formatting, and the client behind \<^verbatim>\<open>s.cli\<close>.
\<close>

record 'req toolkit =
  GetInt :: "'req \<Rightarrow> string \<Rightarrow> bool \<Rightarrow> err + int"
  GetString :: "'req \<Rightarrow> string \<Rightarrow> bool \<Rightarrow> err + string"
  GetArrayOfIntegers :: "'req \<Rightarrow> string \<Rightarrow> bool \<Rightarrow> err + int list"
  GetArrayOfObjects :: "'req \<Rightarrow> string \<Rightarrow> bool \<Rightarrow> err + goany slice"
  FormatV :: "goany \<Rightarrow> string"
  cliUpdateStack :: "int \<Rightarrow> string \<Rightarrow> int list \<Rightarrow> StackEnvVar slice \<Rightarrow> err option"

datatype CallToolResult =
    NewToolResultErrorFromErr string err
  | NewToolResultText string

text \<open>The handler returns its result and the calls of the client's \<^verbatim>\<open>UpdateStack\<close>
  it made, each with its arguments.\<close>

definition HandleUpdateStack ::
  "'req toolkit \<Rightarrow> 'req \<Rightarrow>
   CallToolResult \<times> (int \<times> string \<times> int list \<times> StackEnvVar slice) list" where
  "HandleUpdateStack s request =
     (case GetInt s request ''id'' True of
        Inl e \<Rightarrow> (NewToolResultErrorFromErr ''invalid id parameter'' e, [])
      | Inr sid \<Rightarrow>
     (case GetString s request ''file'' True of
        Inl e \<Rightarrow> (NewToolResultErrorFromErr ''invalid file parameter'' e, [])
      | Inr file \<Rightarrow>
     (case GetArrayOfIntegers s request ''environmentGroupIds'' True of
        Inl e \<Rightarrow> (NewToolResultErrorFromErr ''invalid environmentGroupIds parameter'' e, [])
      | Inr environmentGroupIds \<Rightarrow>
     (case GetArrayOfObjects s request ''envOverrides'' False of
        Inl e \<Rightarrow> (NewToolResultErrorFromErr ''invalid envOverrides parameter'' e, [])
      | Inr envOverridesRaw \<Rightarrow>
     (case parseStackEnvOverrides (FormatV s) envOverridesRaw of
        Inl e \<Rightarrow> (NewToolResultErrorFromErr ''invalid envOverrides parameter'' e, [])
      | Inr envOverrides \<Rightarrow>
     (case cliUpdateStack s sid file environmentGroupIds envOverrides of
        Some e \<Rightarrow> NewToolResultErrorFromErr ''failed to update stack'' e
      | None \<Rightarrow> NewToolResultText ''Stack updated successfully'',
      [(sid, file, environmentGroupIds, envOverrides)]))))))"

section \<open>Specification-level notions\<close>

subsection \<open>The merge as the specification words it\<close>

text \<open>
  The value an override list gives a name: entries with an empty name are ignored and
  the last entry of a name wins.
\<close>

definition overrideValue :: "StackEnvVar list \<Rightarrow> string \<Rightarrow> string option" where
  "overrideValue overrides n =
     map_of (rev (map (\<lambda>ov. (Name ov, Value ov)) (filter (\<lambda>ov. Name ov \<noteq> []) overrides))) n"

text \<open>The non-empty names of a list of entries, once each, in first-seen order.\<close>

definition firstSeenNames :: "StackEnvVar list \<Rightarrow> string list" where
  "firstSeenNames entries =
     rev (remdups (rev (map Name (filter (\<lambda>entry. Name entry \<noteq> []) entries))))"

text \<open>An existing entry with its override value substituted when its name is overridden.\<close>

definition substitute :: "StackEnvVar list \<Rightarrow> StackEnvVar \<Rightarrow> StackEnvVar" where
  "substitute overrides e =
     (case overrideValue overrides (Name e) of
        Some v \<Rightarrow> \<lparr>Name = Name e, Value = v\<rparr>
      | None \<Rightarrow> e)"

text \<open>The entries appended for the override names that no existing entry carries.\<close>

definition newNames :: "StackEnvVar list \<Rightarrow> StackEnvVar list \<Rightarrow> string list" where
  "newNames existing overrides =
     filter (\<lambda>n. n \<notin> set (map Name existing)) (firstSeenNames overrides)"

definition newEntries :: "StackEnvVar list \<Rightarrow> StackEnvVar list \<Rightarrow> StackEnvVar list" where
  "newEntries existing overrides =
     map (\<lambda>n. \<lparr>Name = n,
               Value = (case overrideValue overrides n of Some v \<Rightarrow> v | None \<Rightarrow> [])\<rparr>)
       (newNames existing overrides)"

text \<open>The merge as specified: every existing entry is emitted.\<close>

definition merge_spec :: "StackEnvVar list \<Rightarrow> StackEnvVar list \<Rightarrow> StackEnvVar list" where
  "merge_spec existing overrides =
     (if overrides = [] then existing
      else map (substitute overrides) existing @ newEntries existing overrides)"

text \<open>
  The merge as the code performs it: when some override has a non-empty name, the
  existing entries with an empty name are left out.
\<close>

definition merge_skipping :: "StackEnvVar list \<Rightarrow> StackEnvVar list \<Rightarrow> StackEnvVar list" where
  "merge_skipping existing overrides =
     (if list_all (\<lambda>ov. Name ov = []) overrides then existing
      else map (substitute overrides) (filter (\<lambda>e. Name e \<noteq> []) existing)
           @ newEntries existing overrides)"

subsection \<open>Degenerate decodes\<close>

text \<open>
  A decode is degenerate when it yields entries none of which carries a non-empty name
  or value. The primary decode has failed to capture the values when it returns an error
  or is degenerate.
\<close>

definition degenerate :: "StackEnvVar slice \<Rightarrow> bool" where
  "degenerate env \<longleftrightarrow>
     len env > 0 \<and> list_all (\<lambda>entry. Name entry = [] \<and> Value entry = []) (elems env)"

definition primaryFailed :: "world \<Rightarrow> string \<Rightarrow> bool" where
  "primaryFailed w raw =
     (case unmarshalStackEnv w raw of Inl e \<Rightarrow> True | Inr env \<Rightarrow> degenerate env)"

subsection \<open>The two shapes of an entry\<close>




subsection \<open>Well-formed override entries\<close>

text \<open>
  The override an entry of the \<^verbatim>\<open>envOverrides\<close> array denotes, when the entry is an
  object carrying a non-empty string \<^verbatim>\<open>name\<close> and a string \<^verbatim>\<open>value\<close>.
\<close>

definition entryOverride :: "goany \<Rightarrow> StackEnvVar option" where
  "entryOverride entry =
     (case entry of
        AnyMap m \<Rightarrow>
          (case (m ''name'', m ''value'') of
             (Some (AnyString n), Some (AnyString v)) \<Rightarrow>
               if n \<noteq> [] then Some \<lparr>Name = n, Value = v\<rparr> else None
           | _ \<Rightarrow> None)
      | _ \<Rightarrow> None)"

section \<open>Example worlds\<close>

text \<open>
  A server in the manner of the tests: requests are always built, the given handler
  answers them, and the decoders know a few fixed bodies. The edge SDK answers every
  update with the given result. The scanner knows a few texts, written here without the
  quotes of JSON; member names are compared up to the case of the letters A to Z, and
  the fields of \<^verbatim>\<open>models.StackEnvVar\<close> go by the names \<^verbatim>\<open>name\<close> and \<^verbatim>\<open>value\<close>.
\<close>

definition envText :: string where
  "envText = ''[{Name:DYNU_TOKEN,Value:token},{Name:TELEGRAM_TOKEN,Value:telegram}]''"

definition exampleTexts :: "(string \<times> json) list" where
  "exampleTexts =
     [(envText,
       JArray [JObject [(''Name'', JString ''DYNU_TOKEN''), (''Value'', JString ''token'')],
               JObject [(''Name'', JString ''TELEGRAM_TOKEN''), (''Value'', JString ''telegram'')]]),
      (''[{name:X,value:y}]'', JArray [JObject [(''name'', JString ''X''), (''value'', JString ''y'')]]),
      (''[{Name:X,Value:y}]'', JArray [JObject [(''Name'', JString ''X''), (''Value'', JString ''y'')]]),
      (''[{key:X,val:y}]'', JArray [JObject [(''key'', JString ''X''), (''val'', JString ''y'')]]),
      (''[{name:X,val:y}]'', JArray [JObject [(''name'', JString ''X''), (''val'', JString ''y'')]]),
      (''[{Name:5}]'', JArray [JObject [(''Name'', JNumber ''5'')]]),
      (''[{}]'', JArray [JObject []]),
      (''[]'', JArray []),
      (''{}'', JObject [])]"

definition asciiEqualFold :: "string \<Rightarrow> string \<Rightarrow> bool" where
  "asciiEqualFold a b = (map toLowerChar a = map toLowerChar b)"

definition exampleEnv :: "StackEnvVar list" where
  "exampleEnv = [\<lparr>Name = ''DYNU_TOKEN'', Value = ''token''\<rparr>,
                 \<lparr>Name = ''TELEGRAM_TOKEN'', Value = ''telegram''\<rparr>]"

definition exampleRegularStack :: RegularStack where
  "exampleRegularStack =
     \<lparr>RegularStack_ID = 10, RegularStack_Name = ''regular-stack'', RegularStack_Type = 2,
      RegularStack_EndpointId = 3, RegularStack_CreationDate = 1700000000,
      RegularStack_Status = 1\<rparr>"

definition exampleEdgeStacks :: "EdgeStack list" where
  "exampleEdgeStacks =
     [\<lparr>EdgeStack_ID = 1, EdgeStack_Name = ''stack1'', EdgeStack_CreationDate = 1700000000,
       EdgeStack_EdgeGroups = [1, 2]\<rparr>,
      \<lparr>EdgeStack_ID = 2, EdgeStack_Name = ''stack2'', EdgeStack_CreationDate = 1700000000,
       EdgeStack_EdgeGroups = [3]\<rparr>]"

text \<open>Of the Unicode tables, the example world knows the Kelvin sign.\<close>

definition kelvinLower :: "string \<Rightarrow> string" where
  "kelvinLower run = (if run = [CHR 0xE2, CHR 0x84, CHR 0xAA] then ''k'' else run)"

definition exampleWorld ::
  "(request \<Rightarrow> err + response) \<Rightarrow> err + EdgeStack list \<Rightarrow> err option \<Rightarrow> world" where
  "exampleWorld handler edgeList edgeUpdate =
     \<lparr>NewRequest = (\<lambda>m u. None),
      Do = handler,
      UnmarshalRegularStacks =
        (\<lambda>body. if body = ''stacks'' then Inr (Slice [exampleRegularStack])
                 else if body = ''none'' then Inr (Slice [])
                 else Inl (ErrorString ''invalid character'')),
      UnmarshalStackDetails =
        (\<lambda>body. if body = ''details'' then Inr (21, envText)
                 else Inl (ErrorString ''invalid character'')),
      ScanJSON = map_of exampleTexts,
      EqualFold = asciiEqualFold,
      UnmarshalError = (\<lambda>target raw. ErrorString (''json: cannot unmarshal into '' @ target)),
      NameTag = ''name'',
      ValueTag = ''value'',
      MarshalUpdatePayload = (\<lambda>p. Inr ''payload''),
      ListEdgeStacks = edgeList,
      UpdateEdgeStack = (\<lambda>i f g. edgeUpdate),
      FormatRFC3339 = (\<lambda>t. ''2023-11-14T22:13:20Z''),
      LowerNonASCII = kelvinLower\<rparr>"

definition okResponse :: "string \<Rightarrow> err + response" where
  "okResponse body = Inr \<lparr>StatusCode = 200, ReadAll = (body, None)\<rparr>"

definition statusResponse :: "int \<Rightarrow> string \<Rightarrow> err + response" where
  "statusResponse code body = Inr \<lparr>StatusCode = code, ReadAll = (body, None)\<rparr>"

definition exampleClient :: PortainerClient where
  "exampleClient = \<lparr>serverURL = ''portainer.test/'', token = ''test-token'', skipTLSVerify = False\<rparr>"

definition edgeOnlyClient :: PortainerClient where
  "edgeOnlyClient = \<lparr>serverURL = [], token = [], skipTLSVerify = False\<rparr>"

text \<open>Servers: one that serves the details of a stack and rejects every other request
  with status 404, one that knows no stack, one that forbids everything, one that cannot
  be reached, and one that answers every request with the given body.\<close>

definition rejectingServer :: "request \<Rightarrow> err + response" where
  "rejectingServer r =
     (if Method r = ''GET'' then okResponse ''details'' else statusResponse 404 ''not found'')"

definition missingServer :: "request \<Rightarrow> err + response" where
  "missingServer r = statusResponse 404 ''not found''"

definition forbiddingServer :: "request \<Rightarrow> err + response" where
  "forbiddingServer r = statusResponse 403 ''access denied''"

definition unreachableServer :: "request \<Rightarrow> err + response" where
  "unreachableServer r = Inl (ErrorString ''connection refused'')"

definition listingServer :: "string \<Rightarrow> request \<Rightarrow> err + response" where
  "listingServer body r = okResponse body"

text \<open>A tool kit whose parser reads the request itself as the \<^verbatim>\<open>envOverrides\<close>
  array and whose client accepts every update.\<close>

definition exampleToolkit :: "goany slice toolkit" where
  "exampleToolkit =
     \<lparr>GetInt = (\<lambda>request name required. Inr 42),
      GetString = (\<lambda>request name required. Inr ''version: 3''),
      GetArrayOfIntegers = (\<lambda>request name required. Inr [1, 2]),
      GetArrayOfObjects = (\<lambda>request name required. Inr request),
      FormatV = (\<lambda>v. ''<value>''),
      cliUpdateStack = (\<lambda>sid file groups overrides. None)\<rparr>"

section \<open>Properties of the environment merge\<close>

subsection \<open>The three loops\<close>

lemma collectOverrides_append:
  "collectOverrides (xs @ ys) st = collectOverrides ys (collectOverrides xs st)"
  by (induction xs st rule: collectOverrides.induct) auto

lemma overrideValue_snoc:
  "overrideValue (xs @ [x]) =
     (if Name x = [] then overrideValue xs else (overrideValue xs)(Name x \<mapsto> Value x))"
  by (auto simp: overrideValue_def fun_eq_iff)

lemma firstSeenNames_snoc:
  "firstSeenNames (xs @ [x]) =
     (if Name x = [] \<or> overrideValue xs (Name x) \<noteq> None then firstSeenNames xs
      else firstSeenNames xs @ [Name x])"
  by (auto simp: firstSeenNames_def overrideValue_def map_of_eq_None_iff image_iff)

lemma collectOverrides_char:
  "Mapping.lookup (fst (collectOverrides xs (Mapping.empty, []))) = overrideValue xs \<and>
   snd (collectOverrides xs (Mapping.empty, [])) = firstSeenNames xs"
proof (induction xs rule: rev_induct)
  case Nil
  show ?case by (simp add: overrideValue_def firstSeenNames_def fun_eq_iff)
next
  case (snoc x xs)
  obtain vals ord where st: "collectOverrides xs (Mapping.empty, []) = (vals, ord)"
    by (cases "collectOverrides xs (Mapping.empty, [])")
  with snoc have IH: "Mapping.lookup vals = overrideValue xs" "ord = firstSeenNames xs" by simp_all
  show ?case
    using IH
    by (auto simp: collectOverrides_append st overrideValue_snoc firstSeenNames_snoc
        fun_eq_iff Mapping.lookup_update')
qed

lemma walkExisting_char:
  "walkExisting vals ex (merged, seen) =
     (merged @ map (\<lambda>e. case Mapping.lookup vals (Name e) of
                          Some v \<Rightarrow> \<lparr>Name = Name e, Value = v\<rparr> | None \<Rightarrow> e)
                (filter (\<lambda>e. Name e \<noteq> []) ex),
      seen \<union> set (map Name (filter (\<lambda>e. Name e \<noteq> []) ex)))"
  by (induction ex arbitrary: merged seen) (auto split: option.splits)

lemma appendOverrides_char:
  "distinct ord \<Longrightarrow>
   fst (appendOverrides vals ord (merged, seen)) =
     merged @ map (\<lambda>n. \<lparr>Name = n, Value = Mapping.lookup_default [] vals n\<rparr>)
                (filter (\<lambda>n. n \<notin> seen) ord)"
proof (induction ord arbitrary: merged seen)
  case Nil
  show ?case by simp
next
  case (Cons n ord)
  then have "filter (\<lambda>m. m \<notin> insert n seen) ord = filter (\<lambda>m. m \<notin> seen) ord"
    by (auto intro: filter_cong)
  with Cons show ?case by simp
qed

lemma distinct_firstSeenNames: "distinct (firstSeenNames xs)"
  by (simp add: firstSeenNames_def)

lemma set_firstSeenNames: "set (firstSeenNames xs) = {n \<in> Name ` set xs. n \<noteq> []}"
  by (auto simp: firstSeenNames_def)

lemma overrideValue_None_iff: "overrideValue xs n = None \<longleftrightarrow> n \<notin> set (firstSeenNames xs)"
  by (auto simp: overrideValue_def firstSeenNames_def map_of_eq_None_iff image_iff)

lemma is_empty_collect:
  "Mapping.is_empty (fst (collectOverrides xs (Mapping.empty, []))) \<longleftrightarrow>
     list_all (\<lambda>ov. Name ov = []) xs"
proof -
  have "Mapping.keys (fst (collectOverrides xs (Mapping.empty, []))) = set (firstSeenNames xs)"
    using collectOverrides_char [of xs]
    by (auto simp: Mapping.keys_dom_lookup dom_def overrideValue_None_iff)
  then show ?thesis
    by (auto simp: Mapping.is_empty_def set_firstSeenNames list_all_iff)
qed

lemma mergeEnvOverrides_elems:
  "elems (mergeEnvOverrides existing overrides) = merge_skipping (elems existing) (elems overrides)"
proof (cases "list_all (\<lambda>ov. Name ov = []) (elems overrides)")
  case True
  then show ?thesis
    using is_empty_collect [of "elems overrides"]
    by (auto simp: mergeEnvOverrides_def merge_skipping_def len_def split: prod.splits)
next
  case False
  then have ne: "elems overrides \<noteq> []" by auto
  obtain vals ord where st: "collectOverrides (elems overrides) (Mapping.empty, []) = (vals, ord)"
    by (cases "collectOverrides (elems overrides) (Mapping.empty, [])")
  have vals: "Mapping.lookup vals = overrideValue (elems overrides)"
    and ord: "ord = firstSeenNames (elems overrides)"
    using collectOverrides_char [of "elems overrides"] st by simp_all
  have nonempty: "\<not> Mapping.is_empty vals"
    using is_empty_collect [of "elems overrides"] st False by simp
  have flt: "filter (\<lambda>n. n \<notin> set (map Name (filter (\<lambda>e. Name e \<noteq> []) (elems existing)))) ord
           = filter (\<lambda>n. n \<notin> set (map Name (elems existing))) ord"
    by (rule filter_cong) (auto simp: ord set_firstSeenNames)
  have dist: "distinct ord" by (simp add: ord distinct_firstSeenNames)
  have subst: "(\<lambda>e. case Mapping.lookup vals (Name e) of
                      Some v \<Rightarrow> \<lparr>Name = Name e, Value = v\<rparr> | None \<Rightarrow> e)
               = substitute (elems overrides)"
    by (simp add: fun_eq_iff substitute_def vals)
  have code: "elems (mergeEnvOverrides existing overrides) =
      fst (appendOverrides vals ord (walkExisting vals (elems existing) ([], {})))"
    using ne nonempty by (simp add: mergeEnvOverrides_def len_def st)
  also have "\<dots> = map (substitute (elems overrides)) (filter (\<lambda>e. Name e \<noteq> []) (elems existing))
      @ map (\<lambda>n. \<lparr>Name = n, Value = Mapping.lookup_default [] vals n\<rparr>)
          (filter (\<lambda>n. n \<notin> set (map Name (elems existing))) ord)"
    unfolding walkExisting_char subst appendOverrides_char [OF dist]
    using flt by simp
  also have "\<dots> = merge_skipping (elems existing) (elems overrides)"
    using False
    by (simp add: merge_skipping_def newEntries_def newNames_def ord Mapping.lookup_default_def vals)
  finally show ?thesis .
qed

lemma mergeEnvOverrides_slice:
  "mergeEnvOverrides existing overrides =
     (if list_all (\<lambda>ov. Name ov = []) (elems overrides) then existing
      else Slice (merge_skipping (elems existing) (elems overrides)))"
proof (cases "list_all (\<lambda>ov. Name ov = []) (elems overrides)")
  case True
  then show ?thesis
    using is_empty_collect [of "elems overrides"]
    by (auto simp: mergeEnvOverrides_def len_def split: prod.splits)
next
  case False
  then have ne: "elems overrides \<noteq> []" by auto
  obtain vals ord where st: "collectOverrides (elems overrides) (Mapping.empty, []) = (vals, ord)"
    by (cases "collectOverrides (elems overrides) (Mapping.empty, [])")
  have nonempty: "\<not> Mapping.is_empty vals"
    using is_empty_collect [of "elems overrides"] st False by simp
  have "mergeEnvOverrides existing overrides =
      Slice (fst (appendOverrides vals ord (walkExisting vals (elems existing) ([], {}))))"
    using ne nonempty by (simp add: mergeEnvOverrides_def len_def st)
  then have "mergeEnvOverrides existing overrides
      = Slice (elems (mergeEnvOverrides existing overrides))"
    by simp
  with False show ?thesis by (simp add: mergeEnvOverrides_elems)
qed

lemma merge_skipping_eq_spec:
  assumes "list_all (\<lambda>e. Name e \<noteq> []) existing"
  shows "merge_skipping existing overrides = merge_spec existing overrides"
proof (cases "list_all (\<lambda>ov. Name ov = []) overrides")
  case False
  then have "overrides \<noteq> []" by auto
  moreover have "filter (\<lambda>e. Name e \<noteq> []) existing = existing"
    using assms by (simp add: list_all_iff)
  ultimately show ?thesis using False by (simp add: merge_skipping_def merge_spec_def)
next
  case True
  then have flt: "filter (\<lambda>ov. Name ov \<noteq> []) overrides = []"
    by (auto simp: list_all_iff filter_empty_conv)
  have "map (substitute overrides) existing = existing"
    by (simp add: substitute_def overrideValue_def flt map_idI)
  moreover have "newEntries existing overrides = []"
    by (simp add: newEntries_def newNames_def firstSeenNames_def flt)
  ultimately show ?thesis using True by (simp add: merge_skipping_def merge_spec_def)
qed

lemma length_newNames:
  "length (newNames existing overrides) =
     card {n. n \<noteq> [] \<and> n \<in> Name ` set overrides \<and> n \<notin> Name ` set existing}"
proof -
  have "distinct (newNames existing overrides)"
    by (simp add: newNames_def distinct_firstSeenNames)
  then have "length (newNames existing overrides) = card (set (newNames existing overrides))"
    by (simp add: distinct_card)
  moreover have "set (newNames existing overrides) =
      {n. n \<noteq> [] \<and> n \<in> Name ` set overrides \<and> n \<notin> Name ` set existing}"
    by (auto simp: newNames_def set_firstSeenNames)
  ultimately show ?thesis by simp
qed


subsection \<open>The merge against its specification\<close>

text \<open>
  C2, as the specification states it, fails: the specified merge emits every existing
  entry, the code leaves out an existing entry whose name is empty once some override
  has a non-empty name. With the existing list holding one entry of empty name and the
  overrides holding the pair (A, 1), the code returns the single pair (A, 1) and the
  specified merge returns both entries.
\<close>

theorem mergeEnvOverrides_spec_counterexample:
  "elems (mergeEnvOverrides (Slice [\<lparr>Name = [], Value = ''x''\<rparr>]) (Slice [\<lparr>Name = ''A'', Value = ''1''\<rparr>]))
   \<noteq> merge_spec [\<lparr>Name = [], Value = ''x''\<rparr>] [\<lparr>Name = ''A'', Value = ''1''\<rparr>]"
  by (simp add: mergeEnvOverrides_def len_def Mapping.lookup_default_def merge_spec_def
      newEntries_def newNames_def substitute_def overrideValue_def firstSeenNames_def)


text \<open>
  C2, amended. With no override the existing slice is returned unchanged. Otherwise the
  overrides are deduplicated by name (empty names ignored, last value wins, first-seen
  order recorded); when no override has a non-empty name the existing slice is returned
  unchanged, be it nil or not; else the result is a slice of its own, in which the
  existing entries of non-empty name are emitted in their order, each with its
  override value substituted when its name is overridden, followed by every override
  name that no existing entry carries, once each, in first-seen order. When no existing
  entry has an empty name this is the specified merge. The merge of (A,1),(B,2) with
  (B,9),(C,3) is (A,1),(B,9),(C,3).
\<close>

theorem mergeEnvOverrides_refines:
  "(len overrides = 0 \<longrightarrow> mergeEnvOverrides existing overrides = existing) \<and>
   elems (mergeEnvOverrides existing overrides) = merge_skipping (elems existing) (elems overrides) \<and>
   (list_all (\<lambda>e. Name e \<noteq> []) (elems existing) \<longrightarrow>
      elems (mergeEnvOverrides existing overrides) = merge_spec (elems existing) (elems overrides)) \<and>
   (list_all (\<lambda>ov. Name ov = []) (elems overrides) \<longrightarrow>
      mergeEnvOverrides existing overrides = existing) \<and>
   (\<not> list_all (\<lambda>ov. Name ov = []) (elems overrides) \<longrightarrow>
      mergeEnvOverrides existing overrides
        = Slice (merge_skipping (elems existing) (elems overrides))) \<and>
   mergeEnvOverrides
     (Slice [\<lparr>Name = ''A'', Value = ''1''\<rparr>, \<lparr>Name = ''B'', Value = ''2''\<rparr>])
     (Slice [\<lparr>Name = ''B'', Value = ''9''\<rparr>, \<lparr>Name = ''C'', Value = ''3''\<rparr>])
   = Slice [\<lparr>Name = ''A'', Value = ''1''\<rparr>, \<lparr>Name = ''B'', Value = ''9''\<rparr>,
            \<lparr>Name = ''C'', Value = ''3''\<rparr>]"
proof (intro conjI impI)
  assume "len overrides = 0"
  then show "mergeEnvOverrides existing overrides = existing"
    by (simp add: mergeEnvOverrides_def)
next
  show "elems (mergeEnvOverrides existing overrides) = merge_skipping (elems existing) (elems overrides)"
    by (rule mergeEnvOverrides_elems)
next
  assume "list_all (\<lambda>e. Name e \<noteq> []) (elems existing)"
  then show "elems (mergeEnvOverrides existing overrides) = merge_spec (elems existing) (elems overrides)"
    by (simp add: mergeEnvOverrides_elems merge_skipping_eq_spec)
next
  assume "list_all (\<lambda>ov. Name ov = []) (elems overrides)"
  then show "mergeEnvOverrides existing overrides = existing"
    by (simp add: mergeEnvOverrides_slice)
next
  assume "\<not> list_all (\<lambda>ov. Name ov = []) (elems overrides)"
  then show "mergeEnvOverrides existing overrides
        = Slice (merge_skipping (elems existing) (elems overrides))"
    by (simp add: mergeEnvOverrides_slice)
next
  show "mergeEnvOverrides
     (Slice [\<lparr>Name = ''A'', Value = ''1''\<rparr>, \<lparr>Name = ''B'', Value = ''2''\<rparr>])
     (Slice [\<lparr>Name = ''B'', Value = ''9''\<rparr>, \<lparr>Name = ''C'', Value = ''3''\<rparr>])
   = Slice [\<lparr>Name = ''A'', Value = ''1''\<rparr>, \<lparr>Name = ''B'', Value = ''9''\<rparr>,
            \<lparr>Name = ''C'', Value = ''3''\<rparr>]"
    by (simp add: mergeEnvOverrides_def len_def Mapping.lookup_default_def)
qed

theorem mergeEnvOverrides_refines_witness:
  "mergeEnvOverrides (Slice [\<lparr>Name = ''A'', Value = ''1''\<rparr>]) NilSlice
     = Slice [\<lparr>Name = ''A'', Value = ''1''\<rparr>] \<and>
   mergeEnvOverrides NilSlice (Slice [\<lparr>Name = [], Value = ''q''\<rparr>]) = NilSlice \<and>
   mergeEnvOverrides (Slice []) (Slice [\<lparr>Name = [], Value = ''q''\<rparr>]) = Slice [] \<and>
   elems (mergeEnvOverrides
     (Slice [\<lparr>Name = ''A'', Value = ''1''\<rparr>, \<lparr>Name = [], Value = ''z''\<rparr>, \<lparr>Name = ''B'', Value = ''2''\<rparr>])
     (Slice [\<lparr>Name = ''B'', Value = ''9''\<rparr>, \<lparr>Name = [], Value = ''q''\<rparr>,
             \<lparr>Name = ''C'', Value = ''3''\<rparr>, \<lparr>Name = ''B'', Value = ''7''\<rparr>]))
     = [\<lparr>Name = ''A'', Value = ''1''\<rparr>, \<lparr>Name = ''B'', Value = ''7''\<rparr>, \<lparr>Name = ''C'', Value = ''3''\<rparr>] \<and>
   elems (mergeEnvOverrides
     (Slice [\<lparr>Name = ''A'', Value = ''1''\<rparr>, \<lparr>Name = ''B'', Value = ''2''\<rparr>])
     (Slice [\<lparr>Name = ''C'', Value = ''3''\<rparr>, \<lparr>Name = ''A'', Value = ''5''\<rparr>]))
     = merge_spec [\<lparr>Name = ''A'', Value = ''1''\<rparr>, \<lparr>Name = ''B'', Value = ''2''\<rparr>]
         [\<lparr>Name = ''C'', Value = ''3''\<rparr>, \<lparr>Name = ''A'', Value = ''5''\<rparr>]"
  using mergeEnvOverrides_refines [of NilSlice "Slice [\<lparr>Name = ''A'', Value = ''1''\<rparr>]"]
    mergeEnvOverrides_refines [of "Slice [\<lparr>Name = [], Value = ''q''\<rparr>]" NilSlice]
    mergeEnvOverrides_refines [of "Slice [\<lparr>Name = [], Value = ''q''\<rparr>]" "Slice []"]
    mergeEnvOverrides_refines [of
      "Slice [\<lparr>Name = ''B'', Value = ''9''\<rparr>, \<lparr>Name = [], Value = ''q''\<rparr>,
             \<lparr>Name = ''C'', Value = ''3''\<rparr>, \<lparr>Name = ''B'', Value = ''7''\<rparr>]"
      "Slice [\<lparr>Name = ''A'', Value = ''1''\<rparr>, \<lparr>Name = [], Value = ''z''\<rparr>, \<lparr>Name = ''B'', Value = ''2''\<rparr>]"]
    mergeEnvOverrides_refines [of
      "Slice [\<lparr>Name = ''C'', Value = ''3''\<rparr>, \<lparr>Name = ''A'', Value = ''5''\<rparr>]"
      "Slice [\<lparr>Name = ''A'', Value = ''1''\<rparr>, \<lparr>Name = ''B'', Value = ''2''\<rparr>]"]
  by (simp add: len_def merge_skipping_def merge_spec_def substitute_def overrideValue_def
      newEntries_def newNames_def firstSeenNames_def)


text \<open>
  C3, as the specification states it, fails on the same design decision: with the
  existing entries (empty name, x) and (A, 1) and the override (B, 2) the merged list has
  two entries, not two plus one, and the empty name of the existing list is absent from
  the result.
\<close>

theorem mergeEnvOverrides_length_counterexample:
  "length (elems (mergeEnvOverrides
       (Slice [\<lparr>Name = [], Value = ''x''\<rparr>, \<lparr>Name = ''A'', Value = ''1''\<rparr>])
       (Slice [\<lparr>Name = ''B'', Value = ''2''\<rparr>])))
     \<noteq> length [\<lparr>Name = [], Value = ''x''\<rparr>, \<lparr>Name = ''A'', Value = ''1''\<rparr>]
        + length (newNames [\<lparr>Name = [], Value = ''x''\<rparr>, \<lparr>Name = ''A'', Value = ''1''\<rparr>]
                    [\<lparr>Name = ''B'', Value = ''2''\<rparr>]) \<and>
   \<not> set (map Name [\<lparr>Name = [], Value = ''x''\<rparr>, \<lparr>Name = ''A'', Value = ''1''\<rparr>])
     \<subseteq> set (map Name (elems (mergeEnvOverrides
       (Slice [\<lparr>Name = [], Value = ''x''\<rparr>, \<lparr>Name = ''A'', Value = ''1''\<rparr>])
       (Slice [\<lparr>Name = ''B'', Value = ''2''\<rparr>]))))"
  by (simp add: mergeEnvOverrides_def len_def Mapping.lookup_default_def newNames_def
      firstSeenNames_def)


text \<open>
  C3, amended. When no override has a non-empty name the merged slice is the existing
  one, so the merged list is as long as the existing one; otherwise its length is the number of existing entries of non-empty name
  plus the number of genuinely new override names (the non-empty override names that no
  existing entry carries). When no existing entry has an empty name this is the length
  of the existing list plus the number of genuinely new names. Every non-empty name of
  the existing list is a name of the merged list.
\<close>

theorem mergeEnvOverrides_length:
  "length (elems (mergeEnvOverrides existing overrides)) =
     (if list_all (\<lambda>ov. Name ov = []) (elems overrides) then length (elems existing)
      else length (filter (\<lambda>e. Name e \<noteq> []) (elems existing))
           + length (newNames (elems existing) (elems overrides))) \<and>
   length (newNames (elems existing) (elems overrides)) =
     card {n. n \<noteq> [] \<and> n \<in> Name ` set (elems overrides) \<and> n \<notin> Name ` set (elems existing)} \<and>
   (list_all (\<lambda>e. Name e \<noteq> []) (elems existing) \<longrightarrow>
      length (elems (mergeEnvOverrides existing overrides)) =
        length (elems existing) + length (newNames (elems existing) (elems overrides))) \<and>
   (\<forall>n \<in> set (map Name (elems existing)).
      n \<noteq> [] \<longrightarrow> n \<in> set (map Name (elems (mergeEnvOverrides existing overrides)))) \<and>
   (list_all (\<lambda>ov. Name ov = []) (elems overrides) \<longrightarrow>
      mergeEnvOverrides existing overrides = existing)"
proof (intro conjI impI ballI)
  show "length (elems (mergeEnvOverrides existing overrides)) =
     (if list_all (\<lambda>ov. Name ov = []) (elems overrides) then length (elems existing)
      else length (filter (\<lambda>e. Name e \<noteq> []) (elems existing))
           + length (newNames (elems existing) (elems overrides)))"
    by (simp add: mergeEnvOverrides_elems merge_skipping_def newEntries_def)
next
  show "length (newNames (elems existing) (elems overrides)) =
     card {n. n \<noteq> [] \<and> n \<in> Name ` set (elems overrides) \<and> n \<notin> Name ` set (elems existing)}"
    by (rule length_newNames)
next
  assume ne: "list_all (\<lambda>e. Name e \<noteq> []) (elems existing)"
  have "length (merge_spec (elems existing) (elems overrides)) =
      length (elems existing) + length (newNames (elems existing) (elems overrides))"
    by (simp add: merge_spec_def newEntries_def newNames_def firstSeenNames_def)
  then show "length (elems (mergeEnvOverrides existing overrides)) =
        length (elems existing) + length (newNames (elems existing) (elems overrides))"
    using ne by (simp add: mergeEnvOverrides_elems merge_skipping_eq_spec)
next
  fix n assume n: "n \<in> set (map Name (elems existing))" "n \<noteq> []"
  have subst_name: "\<And>e. Name (substitute (elems overrides) e) = Name e"
    by (simp add: substitute_def split: option.splits)
  from n obtain e where e: "e \<in> set (elems existing)" "Name e = n" by auto
  show "n \<in> set (map Name (elems (mergeEnvOverrides existing overrides)))"
  proof (cases "list_all (\<lambda>ov. Name ov = []) (elems overrides)")
    case True
    with n show ?thesis by (simp add: mergeEnvOverrides_elems merge_skipping_def)
  next
    case False
    from e n have "substitute (elems overrides) e
        \<in> set (map (substitute (elems overrides)) (filter (\<lambda>e. Name e \<noteq> []) (elems existing)))"
      by simp
    then have "substitute (elems overrides) e \<in> set (merge_skipping (elems existing) (elems overrides))"
      using False by (simp add: merge_skipping_def)
    then have "Name (substitute (elems overrides) e)
        \<in> set (map Name (elems (mergeEnvOverrides existing overrides)))"
      unfolding mergeEnvOverrides_elems by (metis image_eqI set_map)
    then show ?thesis by (simp add: subst_name e)
  qed
next
  assume "list_all (\<lambda>ov. Name ov = []) (elems overrides)"
  then show "mergeEnvOverrides existing overrides = existing"
    by (simp add: mergeEnvOverrides_slice)
qed

theorem mergeEnvOverrides_length_witness:
  "length (elems (mergeEnvOverrides
       (Slice [\<lparr>Name = [], Value = ''x''\<rparr>, \<lparr>Name = ''A'', Value = ''1''\<rparr>])
       (Slice [\<lparr>Name = ''B'', Value = ''2''\<rparr>, \<lparr>Name = ''A'', Value = ''3''\<rparr>]))) = 2 \<and>
   length (elems (mergeEnvOverrides
       (Slice [\<lparr>Name = ''A'', Value = ''1''\<rparr>])
       (Slice [\<lparr>Name = ''B'', Value = ''2''\<rparr>, \<lparr>Name = ''B'', Value = ''3''\<rparr>]))) = 1 + 1 \<and>
   ''A'' \<in> set (map Name (elems (mergeEnvOverrides
       (Slice [\<lparr>Name = [], Value = ''x''\<rparr>, \<lparr>Name = ''A'', Value = ''1''\<rparr>])
       (Slice [\<lparr>Name = ''B'', Value = ''2''\<rparr>, \<lparr>Name = ''A'', Value = ''3''\<rparr>]))))"
  using mergeEnvOverrides_length [of
      "Slice [\<lparr>Name = [], Value = ''x''\<rparr>, \<lparr>Name = ''A'', Value = ''1''\<rparr>]"
      "Slice [\<lparr>Name = ''B'', Value = ''2''\<rparr>, \<lparr>Name = ''A'', Value = ''3''\<rparr>]"]
    mergeEnvOverrides_length [of
      "Slice [\<lparr>Name = ''A'', Value = ''1''\<rparr>]"
      "Slice [\<lparr>Name = ''B'', Value = ''2''\<rparr>, \<lparr>Name = ''B'', Value = ''3''\<rparr>]"]
  by (simp add: newNames_def firstSeenNames_def)


section \<open>Properties of the fallback classifier\<close>

subsection \<open>Lowering around ASCII text\<close>

lemma lowerFrom_ascii_char:
  "isASCII c \<Longrightarrow>
   lowerFrom u run (a @ c # b) = lowerFrom u run a @ toLowerChar c # lowerFrom u [] b"
  by (induction a arbitrary: run) (auto simp: lowerRun_def)

lemma lowerFrom_ascii_block:
  "list_all isASCII mid \<Longrightarrow> mid \<noteq> [] \<Longrightarrow>
   lowerFrom u run (a @ mid @ b) = lowerFrom u run a @ map toLowerChar mid @ lowerFrom u [] b"
proof (induction mid arbitrary: a run)
  case Nil
  then show ?case by simp
next
  case (Cons c mid)
  show ?case
  proof (cases "mid = []")
    case True
    with Cons.prems show ?thesis by (simp add: lowerFrom_ascii_char)
  next
    case False
    have "lowerFrom u [] ([] @ mid @ b) = lowerFrom u [] [] @ map toLowerChar mid @ lowerFrom u [] b"
      using Cons.prems False by (intro Cons.IH) simp_all
    then show ?thesis using Cons.prems by (simp add: lowerFrom_ascii_char lowerRun_def)
  qed
qed

lemma ToLower_ascii_prefix:
  assumes "list_all isASCII p"
  shows "ToLower u (p @ b) = map toLowerChar p @ ToLower u b"
proof (cases "p = []")
  case True
  then show ?thesis by simp
next
  case False
  have "lowerFrom u [] ([] @ p @ b) = lowerFrom u [] [] @ map toLowerChar p @ lowerFrom u [] b"
    using assms False by (rule lowerFrom_ascii_block)
  then show ?thesis by (simp add: ToLower_def lowerRun_def)
qed

lemma ToLower_ascii:
  assumes "list_all isASCII s"
  shows "ToLower u s = map toLowerChar s"
  using ToLower_ascii_prefix [OF assms, of u "[]"] by (simp add: ToLower_def lowerRun_def)

lemma upper_isASCII: "c \<in> set ''ABCDEFGHIJKLMNOPQRSTUVWXYZ'' \<Longrightarrow> isASCII c"
  by (auto simp: isASCII_def)

lemma toLowerChar_ascii:
  assumes "isASCII (toLowerChar c)"
  shows "isASCII c"
proof (cases "map_of (zip ''ABCDEFGHIJKLMNOPQRSTUVWXYZ'' ''abcdefghijklmnopqrstuvwxyz'') c")
  case None
  then show ?thesis using assms by (simp add: toLowerChar_def)
next
  case (Some l)
  then have "(c, l) \<in> set (zip ''ABCDEFGHIJKLMNOPQRSTUVWXYZ'' ''abcdefghijklmnopqrstuvwxyz'')"
    by (rule map_of_SomeD)
  then have "c \<in> set ''ABCDEFGHIJKLMNOPQRSTUVWXYZ''"
    by (rule set_zip_leftD)
  then show ?thesis by (rule upper_isASCII)
qed

lemma lowered_block_ascii:
  "list_all isASCII (map toLowerChar mid) \<Longrightarrow> list_all isASCII mid"
  by (induction mid) (auto dest: toLowerChar_ascii)

lemma ToLower_contains_ascii:
  assumes "\<exists>pre mid post. body = pre @ mid @ post \<and> map toLowerChar mid = marker"
    and "marker \<noteq> []" and "list_all isASCII marker"
  shows "sublist marker (ToLower u body)"
proof -
  from assms(1) obtain pre mid post where body: "body = pre @ mid @ post"
    and mid: "map toLowerChar mid = marker" by blast
  from mid assms(3) have ascii: "list_all isASCII mid" by (simp add: lowered_block_ascii)
  from mid assms(2) have "mid \<noteq> []" by auto
  with ascii have "lowerFrom u [] (pre @ mid @ post)
      = lowerFrom u [] pre @ map toLowerChar mid @ lowerFrom u [] post"
    by (rule lowerFrom_ascii_block)
  then show ?thesis by (simp add: ToLower_def body mid)
qed

subsection \<open>The two tests of the classifier\<close>

lemma isEdgeStackErrorMessage_iff:
  "isEdgeStackErrorMessage w message \<longleftrightarrow>
     sublist ''edgestackupdate'' (ToLower (LowerNonASCII w) message) \<or>
     sublist ''edge stack'' (ToLower (LowerNonASCII w) message)"
  by (simp add: isEdgeStackErrorMessage_def Contains_def Let_def)

lemma edge_stack_ascii: "''edge stack'' \<noteq> [] \<and> list_all isASCII ''edge stack''"
  by (simp add: isASCII_def)

lemma isEdgeStackErrorMessage_edge_stack:
  assumes "\<exists>pre mid post. body = pre @ mid @ post \<and> map toLowerChar mid = ''edge stack''"
  shows "isEdgeStackErrorMessage w body"
proof -
  have "sublist ''edge stack'' (ToLower (LowerNonASCII w) body)"
    using assms edge_stack_ascii [THEN conjunct1] edge_stack_ascii [THEN conjunct2]
    by (rule ToLower_contains_ascii)
  then show ?thesis by (simp add: isEdgeStackErrorMessage_iff)
qed

lemma shouldFallbackToEdge_iff:
  "shouldFallbackToEdge w e \<longleftrightarrow>
     (\<exists>statusCode body. errorsAs e = Some (statusCode, body) \<and>
        (statusCode = 404 \<or> isEdgeStackErrorMessage w body))
     \<or> isEdgeStackErrorMessage w (Error e)"
  by (auto simp: shouldFallbackToEdge_def split: option.splits)

subsection \<open>A status 403 message adds no marker\<close>

lemma splits_of_Cons:
  "(x # xs = m1 @ m2) \<longleftrightarrow> (m1 = [] \<and> m2 = x # xs) \<or> (\<exists>m1'. m1 = x # m1' \<and> xs = m1' @ m2)"
  by (cases m1) auto

lemma straddle_edge_stack:
  "''edge stack'' = m1 @ m2 \<Longrightarrow> suffix m1 ''api returned status 403: '' \<Longrightarrow> m1 = []"
  by (auto simp: splits_of_Cons suffix_to_prefix)

lemma straddle_edgestackupdate:
  "''edgestackupdate'' = m1 @ m2 \<Longrightarrow> suffix m1 ''api returned status 403: '' \<Longrightarrow> m1 = []"
  by (auto simp: splits_of_Cons suffix_to_prefix)

lemma sublist_append_no_straddle:
  assumes "\<not> sublist m p" and "\<not> sublist m b"
    and "\<And>m1 m2. m = m1 @ m2 \<Longrightarrow> suffix m1 p \<Longrightarrow> m1 = []"
  shows "\<not> sublist m (p @ b)"
proof
  assume "sublist m (p @ b)"
  with assms(1,2) obtain m1 m2 where m: "m = m1 @ m2" "suffix m1 p" "prefix m2 b"
    unfolding sublist_append by blast
  then have "m1 = []" using assms(3) by blast
  with m have "prefix m b" by simp
  with assms(2) show False by blast
qed

lemma prefix_403:
  "list_all isASCII ''api returned status 403: ''"
  "map toLowerChar ''api returned status 403: '' = ''api returned status 403: ''"
  by (simp_all add: isASCII_def toLowerChar_def)

lemma no_marker_403:
  "\<not> sublist ''edge stack'' ''api returned status 403: ''"
  "\<not> sublist ''edgestackupdate'' ''api returned status 403: ''"
  by (simp_all add: sublist_Cons_right)

lemma forbidden_unrelated:
  assumes "\<not> isEdgeStackErrorMessage w body"
  shows "\<not> isEdgeStackErrorMessage w (Error (ApiStatusError 403 body))"
proof (cases "body = []")
  case True
  have "fmt_d 403 = ''403''" by (simp add: fmt_d_def nat_dec.simps digit_char_def)
  with True show ?thesis
    by (simp add: isEdgeStackErrorMessage_def Contains_def ToLower_def isASCII_def lowerRun_def
        toLowerChar_def sublist_Cons_right)
next
  case False
  have d: "fmt_d 403 = ''403''" by (simp add: fmt_d_def nat_dec.simps digit_char_def)
  have "Error (ApiStatusError 403 body) = ''api returned status 403: '' @ body"
    using False by (simp add: d)
  then have E: "ToLower (LowerNonASCII w) (Error (ApiStatusError 403 body))
      = ''api returned status 403: '' @ ToLower (LowerNonASCII w) body"
    using ToLower_ascii_prefix [OF prefix_403(1), of "LowerNonASCII w" body]
    by (simp only: prefix_403(2))
  from assms have nb: "\<not> sublist ''edgestackupdate'' (ToLower (LowerNonASCII w) body)"
    "\<not> sublist ''edge stack'' (ToLower (LowerNonASCII w) body)"
    by (simp_all add: isEdgeStackErrorMessage_def Contains_def Let_def)
  have "\<not> sublist ''edge stack'' (''api returned status 403: '' @ ToLower (LowerNonASCII w) body)"
    by (rule sublist_append_no_straddle [OF no_marker_403(1) nb(2) straddle_edge_stack])
  moreover have "\<not> sublist ''edgestackupdate''
      (''api returned status 403: '' @ ToLower (LowerNonASCII w) body)"
    by (rule sublist_append_no_straddle [OF no_marker_403(2) nb(1) straddle_edgestackupdate])
  ultimately show ?thesis
    unfolding isEdgeStackErrorMessage_def Contains_def Let_def E by simp
qed


text \<open>
  C5. The classifier answers true exactly when a status error is found on the chain of
  the error (and its code is 404 or its body carries a marker) or the string form of
  the error carries a marker, where a text carries a marker when its lower-case form,
  as \<^verbatim>\<open>strings.ToLower\<close> gives it, contains one of the two marker texts. So every
  status error of code 404 is fallback-worthy, also when it is wrapped; every status
  error whose body contains the text "edge stack" once lowered is, in particular one
  whose body contains that text with its letters in any case; and a status error of
  code 403 whose body carries no marker is not.
\<close>

theorem shouldFallbackToEdge_policy:
  "(shouldFallbackToEdge w e \<longleftrightarrow>
      (\<exists>statusCode body. errorsAs e = Some (statusCode, body) \<and>
         (statusCode = 404 \<or> isEdgeStackErrorMessage w body))
      \<or> isEdgeStackErrorMessage w (Error e)) \<and>
   (isEdgeStackErrorMessage w message \<longleftrightarrow>
      sublist ''edgestackupdate'' (ToLower (LowerNonASCII w) message) \<or>
      sublist ''edge stack'' (ToLower (LowerNonASCII w) message)) \<and>
   shouldFallbackToEdge w (ApiStatusError 404 bodyA) \<and>
   shouldFallbackToEdge w (Errorf_w pre (ApiStatusError 404 bodyA) post) \<and>
   (sublist ''edge stack'' (ToLower (LowerNonASCII w) bodyC) \<longrightarrow>
      shouldFallbackToEdge w (ApiStatusError statusCodeC bodyC)) \<and>
   ((\<exists>pre mid post. body = pre @ mid @ post \<and> map toLowerChar mid = ''edge stack'') \<longrightarrow>
      shouldFallbackToEdge w (ApiStatusError statusCode body)) \<and>
   (\<not> isEdgeStackErrorMessage w bodyB \<longrightarrow> \<not> shouldFallbackToEdge w (ApiStatusError 403 bodyB))"
proof (intro conjI impI)
  show "shouldFallbackToEdge w e \<longleftrightarrow>
      (\<exists>statusCode body. errorsAs e = Some (statusCode, body) \<and>
         (statusCode = 404 \<or> isEdgeStackErrorMessage w body))
      \<or> isEdgeStackErrorMessage w (Error e)"
    by (rule shouldFallbackToEdge_iff)
next
  show "isEdgeStackErrorMessage w message \<longleftrightarrow>
      sublist ''edgestackupdate'' (ToLower (LowerNonASCII w) message) \<or>
      sublist ''edge stack'' (ToLower (LowerNonASCII w) message)"
    by (rule isEdgeStackErrorMessage_iff)
next
  show "shouldFallbackToEdge w (ApiStatusError 404 bodyA)"
    by (simp add: shouldFallbackToEdge_def)
next
  show "shouldFallbackToEdge w (Errorf_w pre (ApiStatusError 404 bodyA) post)"
    by (simp add: shouldFallbackToEdge_def Errorf_w_def)
next
  assume "sublist ''edge stack'' (ToLower (LowerNonASCII w) bodyC)"
  then have "isEdgeStackErrorMessage w bodyC"
    by (simp add: isEdgeStackErrorMessage_iff)
  then show "shouldFallbackToEdge w (ApiStatusError statusCodeC bodyC)"
    by (simp add: shouldFallbackToEdge_def)
next
  assume "\<exists>pre mid post. body = pre @ mid @ post \<and> map toLowerChar mid = ''edge stack''"
  then have "isEdgeStackErrorMessage w body"
    by (rule isEdgeStackErrorMessage_edge_stack)
  then show "shouldFallbackToEdge w (ApiStatusError statusCode body)"
    by (simp add: shouldFallbackToEdge_def)
next
  assume "\<not> isEdgeStackErrorMessage w bodyB"
  then show "\<not> shouldFallbackToEdge w (ApiStatusError 403 bodyB)"
    using forbidden_unrelated [of w bodyB] by (simp add: shouldFallbackToEdge_def)
qed

theorem shouldFallbackToEdge_policy_witness:
  "shouldFallbackToEdge (exampleWorld missingServer (Inr []) None)
     (ApiStatusError 404 ''not found'') \<and>
   shouldFallbackToEdge (exampleWorld missingServer (Inr []) None)
     (Errorf_w ''failed to get stack details: '' (ApiStatusError 404 ''not found'') []) \<and>
   shouldFallbackToEdge (exampleWorld missingServer (Inr []) None)
     (ApiStatusError 500 ''this is an Edge Stack'') \<and>
   shouldFallbackToEdge (exampleWorld missingServer (Inr []) None)
     (ApiStatusError 403 (''edge stac'' @ [CHR 0xE2, CHR 0x84, CHR 0xAA])) \<and>
   \<not> isEdgeStackErrorMessage (exampleWorld missingServer (Inr []) None) ''access denied'' \<and>
   \<not> shouldFallbackToEdge (exampleWorld missingServer (Inr []) None)
     (ApiStatusError 403 ''access denied'')"
proof -
  let ?w = "exampleWorld missingServer (Inr []) None"
  have split: "\<exists>pre mid post. ''this is an Edge Stack'' = pre @ mid @ post \<and>
      map toLowerChar mid = ''edge stack''"
    by (rule exI [of _ "''this is an ''"], rule exI [of _ "''Edge Stack''"], rule exI [of _ "[]"])
       (simp add: toLowerChar_def)
  have kelvin: "sublist ''edge stack''
      (ToLower (LowerNonASCII ?w) (''edge stac'' @ [CHR 0xE2, CHR 0x84, CHR 0xAA]))"
    by (simp add: ToLower_def isASCII_def toLowerChar_def lowerRun_def exampleWorld_def
        kelvinLower_def)
  have unrelated: "\<not> isEdgeStackErrorMessage ?w ''access denied''"
    by (simp add: isEdgeStackErrorMessage_def Contains_def ToLower_def isASCII_def lowerRun_def
        toLowerChar_def sublist_Cons_right)
  note policy = shouldFallbackToEdge_policy [where ?w = ?w and ?bodyA = "''not found''"
        and ?pre = "''failed to get stack details: ''" and ?post = "[]"
        and ?body = "''this is an Edge Stack''" and ?statusCode = 500
        and ?bodyC = "''edge stac'' @ [CHR 0xE2, CHR 0x84, CHR 0xAA]" and ?statusCodeC = 403
        and ?bodyB = "''access denied''"]
  note rest = policy [THEN conjunct2, THEN conjunct2]
  have a: "shouldFallbackToEdge ?w (ApiStatusError 404 ''not found'')"
    by (rule rest [THEN conjunct1])
  have a': "shouldFallbackToEdge ?w
      (Errorf_w ''failed to get stack details: '' (ApiStatusError 404 ''not found'') [])"
    by (rule rest [THEN conjunct2, THEN conjunct1])
  have k: "shouldFallbackToEdge ?w
      (ApiStatusError 403 (''edge stac'' @ [CHR 0xE2, CHR 0x84, CHR 0xAA]))"
    by (rule rest [THEN conjunct2, THEN conjunct2, THEN conjunct1, rule_format, OF kelvin])
  have b: "shouldFallbackToEdge ?w (ApiStatusError 500 ''this is an Edge Stack'')"
    by (rule rest [THEN conjunct2, THEN conjunct2, THEN conjunct2, THEN conjunct1, rule_format,
          OF split])
  have c: "\<not> shouldFallbackToEdge ?w (ApiStatusError 403 ''access denied'')"
    by (rule rest [THEN conjunct2, THEN conjunct2, THEN conjunct2, THEN conjunct2, rule_format,
          OF unrelated])
  show ?thesis by (rule conjI [OF a conjI [OF a' conjI [OF b conjI [OF k conjI [OF unrelated c]]]]])
qed

section \<open>Properties of the decoding\<close>

lemmas decode_defs = unmarshalStackEnv_def unmarshalStackEnvAlt_def unmarshalEntries_def
  decodeSlice_def decodeElement_def fieldFor_def




lemma unmarshal_not_json:
  "ScanJSON w raw = None \<Longrightarrow>
   unmarshalStackEnv w raw = Inl (UnmarshalError w ''[]models.StackEnvVar'' raw) \<and>
   unmarshalStackEnvAlt w raw = Inl (UnmarshalError w ''[]stackEnvEntryAlt'' raw)"
  by (simp add: decode_defs)

lemma unmarshal_not_array:
  assumes "ScanJSON w raw = Some v" and "v \<noteq> JNull" and "\<forall>vs. v \<noteq> JArray vs"
  shows "isl (unmarshalStackEnv w raw) \<and> isl (unmarshalStackEnvAlt w raw)"
  using assms by (cases v) (simp_all add: decode_defs)

lemma unmarshal_empty_array:
  "ScanJSON w raw = Some (JArray []) \<Longrightarrow> unmarshalStackEnv w raw = Inr (Slice [])"
  by (simp add: decode_defs)

section \<open>Properties of the public operations\<close>

subsection \<open>The regular path makes no edge call\<close>

lemma getRegularStackDetailsHTTP_no_edge:
  "list_all (\<lambda>k. \<not> isEdgeCall k) (snd (getRegularStackDetailsHTTP w c sid))"
  by (simp add: getRegularStackDetailsHTTP_def Let_def split: option.splits)

lemma updateRegularStackHTTP_no_edge:
  "list_all (\<lambda>k. \<not> isEdgeCall k) (snd (updateRegularStackHTTP w c sid endpointId file env))"
  by (simp add: updateRegularStackHTTP_def Let_def split: option.splits sum.splits)

lemma IntToInt64Slice_ident: "IntToInt64Slice ids = ids"
  by (simp add: IntToInt64Slice_def)


subsection \<open>Updating a stack\<close>

text \<open>
  C1. With server URL and token configured, a successful fetch of the regular details,
  a regular update that fails with a fallback-worthy error and at least one override,
  the update returns the error that overrides are not supported for edge stacks; its
  outbound calls are those of the fetch and of the regular update, none of them an edge
  call.
\<close>

theorem UpdateStack_overrides_after_update_failure:
  assumes "serverURL c \<noteq> []" and "token c \<noteq> []"
    and "fst (getRegularStackDetailsHTTP w c sid) = Inr (endpointId, env)"
    and "fst (updateRegularStackHTTP w c sid endpointId file (mergeEnvOverrides env envOverrides))
           = Some e"
    and "shouldFallbackToEdge w e"
    and "len envOverrides > 0"
  shows "fst (UpdateStack w c sid file environmentGroupIds envOverrides)
           = Some (ErrorString ''stack env overrides are not supported for edge stacks'') \<and>
         snd (UpdateStack w c sid file environmentGroupIds envOverrides)
           = snd (getRegularStackDetailsHTTP w c sid)
             @ snd (updateRegularStackHTTP w c sid endpointId file
                      (mergeEnvOverrides env envOverrides)) \<and>
         list_all (\<lambda>k. \<not> isEdgeCall k)
           (snd (UpdateStack w c sid file environmentGroupIds envOverrides))"
proof -
  obtain calls1 where d: "getRegularStackDetailsHTTP w c sid = (Inr (endpointId, env), calls1)"
    using assms(3) by (cases "getRegularStackDetailsHTTP w c sid") simp
  obtain calls2 where u: "updateRegularStackHTTP w c sid endpointId file
      (mergeEnvOverrides env envOverrides) = (Some e, calls2)"
    using assms(4)
    by (cases "updateRegularStackHTTP w c sid endpointId file (mergeEnvOverrides env envOverrides)")
       simp
  have r: "UpdateStack w c sid file environmentGroupIds envOverrides
      = (Some (ErrorString ''stack env overrides are not supported for edge stacks''),
         calls1 @ calls2)"
    using assms(1,2,5,6) by (simp add: UpdateStack_def d u updateFallback_def)
  have "list_all (\<lambda>k. \<not> isEdgeCall k) calls1"
    using getRegularStackDetailsHTTP_no_edge [of w c sid] by (simp add: d)
  moreover have "list_all (\<lambda>k. \<not> isEdgeCall k) calls2"
    using updateRegularStackHTTP_no_edge [of w c sid endpointId "file"
        "mergeEnvOverrides env envOverrides"] by (simp add: u)
  ultimately show ?thesis by (simp add: r d u)
qed

theorem UpdateStack_overrides_after_update_failure_witness:
  "shouldFallbackToEdge (exampleWorld rejectingServer (Inr []) None)
     (ApiStatusError 404 ''not found'') \<and>
   fst (UpdateStack (exampleWorld rejectingServer (Inr []) None) exampleClient 42 ''version: 3'' [1, 2]
          (Slice [\<lparr>Name = ''A'', Value = ''1''\<rparr>]))
     = Some (ErrorString ''stack env overrides are not supported for edge stacks'') \<and>
   list_all (\<lambda>k. \<not> isEdgeCall k)
     (snd (UpdateStack (exampleWorld rejectingServer (Inr []) None) exampleClient 42 ''version: 3'' [1, 2]
          (Slice [\<lparr>Name = ''A'', Value = ''1''\<rparr>])))"
proof -
  have f: "shouldFallbackToEdge (exampleWorld rejectingServer (Inr []) None)
      (ApiStatusError 404 ''not found'')"
    by (simp add: shouldFallbackToEdge_def)
  have d: "fst (getRegularStackDetailsHTTP (exampleWorld rejectingServer (Inr []) None)
                  exampleClient 42) = Inr (21, Slice exampleEnv)"
    by (simp add: getRegularStackDetailsHTTP_def exampleWorld_def rejectingServer_def
        okResponse_def parseStackEnv_def decode_defs exampleTexts_def envText_def
        asciiEqualFold_def toLowerChar_def exampleEnv_def len_def)
  have u: "fst (updateRegularStackHTTP (exampleWorld rejectingServer (Inr []) None)
                  exampleClient 42 21 ''version: 3''
                  (mergeEnvOverrides (Slice exampleEnv) (Slice [\<lparr>Name = ''A'', Value = ''1''\<rparr>])))
           = Some (ApiStatusError 404 ''not found'')"
    by (simp add: updateRegularStackHTTP_def exampleWorld_def rejectingServer_def
        statusResponse_def Let_def)
  have c: "serverURL exampleClient \<noteq> []" "token exampleClient \<noteq> []"
    by (simp_all add: exampleClient_def)
  have l: "len (Slice [\<lparr>Name = ''A'', Value = ''1''\<rparr>]) > 0" by (simp add: len_def)
  note t = UpdateStack_overrides_after_update_failure [OF c d u f l, of "[1, 2]"]
  show ?thesis
    by (rule conjI [OF f conjI [OF t [THEN conjunct1] t [THEN conjunct2, THEN conjunct2]]])
qed

text \<open>
  C6. Without server URL or token, an update with no override makes the edge update
  with the given file and group ids as its only call, succeeds when it succeeds and
  returns its error wrapped otherwise; an update with overrides returns the error that
  overrides require server URL and token, and makes no call.
\<close>

theorem UpdateStack_unconfigured:
  assumes "serverURL c = [] \<or> token c = []"
  shows "(len envOverrides = 0 \<longrightarrow>
            UpdateStack w c sid file environmentGroupIds envOverrides
              = (case UpdateEdgeStack w sid file environmentGroupIds of
                   Some e \<Rightarrow> Some (Errorf_w ''failed to update edge stack: '' e [])
                 | None \<Rightarrow> None,
                 [CallUpdateEdgeStack sid file environmentGroupIds])) \<and>
         (len envOverrides > 0 \<longrightarrow>
            UpdateStack w c sid file environmentGroupIds envOverrides
              = (Some (ErrorString
                   ''stack env overrides require a Portainer server url and token''), []))"
  using assms by (auto simp: UpdateStack_def IntToInt64Slice_ident)

theorem UpdateStack_unconfigured_witness:
  "UpdateStack (exampleWorld rejectingServer (Inr []) None) edgeOnlyClient 1 ''version: 3'' [1, 2]
     (Slice []) = (None, [CallUpdateEdgeStack 1 ''version: 3'' [1, 2]]) \<and>
   UpdateStack (exampleWorld rejectingServer (Inr []) (Some (ErrorString ''failed to update stack'')))
     edgeOnlyClient 2 ''version: 3'' [1] NilSlice
     = (Some (WrapError ''failed to update edge stack: failed to update stack''
                (ErrorString ''failed to update stack'')),
        [CallUpdateEdgeStack 2 ''version: 3'' [1]]) \<and>
   UpdateStack (exampleWorld rejectingServer (Inr []) None) edgeOnlyClient 1 ''version: 3'' [1, 2]
     (Slice [\<lparr>Name = ''A'', Value = ''1''\<rparr>])
     = (Some (ErrorString ''stack env overrides require a Portainer server url and token''), [])"
proof -
  have c: "serverURL edgeOnlyClient = [] \<or> token edgeOnlyClient = []"
    by (simp add: edgeOnlyClient_def)
  note a = UpdateStack_unconfigured [OF c, of "Slice []"
      "exampleWorld rejectingServer (Inr []) None" 1 "''version: 3''" "[1, 2]"]
  note b = UpdateStack_unconfigured [OF c, of NilSlice
      "exampleWorld rejectingServer (Inr []) (Some (ErrorString ''failed to update stack''))"
      2 "''version: 3''" "[1]"]
  note d = UpdateStack_unconfigured [OF c, of "Slice [\<lparr>Name = ''A'', Value = ''1''\<rparr>]"
      "exampleWorld rejectingServer (Inr []) None" 1 "''version: 3''" "[1, 2]"]
  from a b d show ?thesis
    by (simp add: len_def exampleWorld_def Errorf_w_def)
qed

subsection \<open>The environment names of a stack\<close>

lemma collectNames_append:
  "collectNames (xs @ ys) st = collectNames ys (collectNames xs st)"
  by (induction xs st rule: collectNames.induct) auto

lemma firstSeenNames_snoc_seen:
  "firstSeenNames (xs @ [x]) =
     (if Name x = [] \<or> Name x \<in> set (firstSeenNames xs) then firstSeenNames xs
      else firstSeenNames xs @ [Name x])"
  by (auto simp: firstSeenNames_def)

lemma collectNames_char:
  "collectNames xs ([], {}) = (firstSeenNames xs, set (firstSeenNames xs))"
proof (induction xs rule: rev_induct)
  case Nil
  show ?case by (simp add: firstSeenNames_def)
next
  case (snoc x xs)
  then show ?case
    by (simp add: collectNames_append firstSeenNames_snoc_seen)
qed


text \<open>
  C7. Without server URL or token the names are refused with the configuration error
  and no call is made. When the fetch of the regular details fails with a
  fallback-worthy error the result is the error that names are not available for edge
  stacks; when it fails otherwise the error is returned wrapped; when it succeeds the
  result is the list of the non-empty names of the parsed environment, once each, in
  their original order. No path makes an edge call.
\<close>

theorem GetStackEnvNames_paths:
  "(serverURL c = [] \<or> token c = [] \<longrightarrow>
      GetStackEnvNames w c sid
        = (Inl (ErrorString ''stack env names require server url and token''), [])) \<and>
   (serverURL c \<noteq> [] \<and> token c \<noteq> [] \<and>
    fst (getRegularStackDetailsHTTP w c sid) = Inl e \<and> shouldFallbackToEdge w e \<longrightarrow>
      fst (GetStackEnvNames w c sid)
        = Inl (ErrorString ''stack env names are not available for edge stacks'')) \<and>
   (serverURL c \<noteq> [] \<and> token c \<noteq> [] \<and>
    fst (getRegularStackDetailsHTTP w c sid) = Inl e \<and> \<not> shouldFallbackToEdge w e \<longrightarrow>
      fst (GetStackEnvNames w c sid) = Inl (Errorf_w ''failed to get stack details: '' e [])) \<and>
   (serverURL c \<noteq> [] \<and> token c \<noteq> [] \<and>
    fst (getRegularStackDetailsHTTP w c sid) = Inr (endpointId, env) \<longrightarrow>
      fst (GetStackEnvNames w c sid) = Inr (Slice (firstSeenNames (elems env)))) \<and>
   list_all (\<lambda>k. \<not> isEdgeCall k) (snd (GetStackEnvNames w c sid))"
proof -
  obtain d calls where d: "getRegularStackDetailsHTTP w c sid = (d, calls)"
    by (cases "getRegularStackDetailsHTTP w c sid")
  have calls: "list_all (\<lambda>k. \<not> isEdgeCall k) calls"
    using getRegularStackDetailsHTTP_no_edge [of w c sid] by (simp add: d)
  show ?thesis
    using calls
    by (simp add: GetStackEnvNames_def d collectNames_char split: sum.splits)
qed

theorem GetStackEnvNames_paths_witness:
  "GetStackEnvNames (exampleWorld rejectingServer (Inr []) None) edgeOnlyClient 42
     = (Inl (ErrorString ''stack env names require server url and token''), []) \<and>
   fst (GetStackEnvNames (exampleWorld missingServer (Inr []) None) exampleClient 76)
     = Inl (ErrorString ''stack env names are not available for edge stacks'') \<and>
   fst (GetStackEnvNames (exampleWorld forbiddingServer (Inr []) None) exampleClient 76)
     = Inl (Errorf_w ''failed to get stack details: '' (ApiStatusError 403 ''access denied'') []) \<and>
   fst (GetStackEnvNames (exampleWorld rejectingServer (Inr []) None) exampleClient 42)
     = Inr (Slice [''DYNU_TOKEN'', ''TELEGRAM_TOKEN'']) \<and>
   list_all (\<lambda>k. \<not> isEdgeCall k)
     (snd (GetStackEnvNames (exampleWorld missingServer (Inr []) None) exampleClient 76))"
proof -
  have unconfigured: "serverURL edgeOnlyClient = [] \<or> token edgeOnlyClient = []"
    by (simp add: edgeOnlyClient_def)
  have configured: "serverURL exampleClient \<noteq> [] \<and> token exampleClient \<noteq> []"
    by (simp add: exampleClient_def)
  have missing: "fst (getRegularStackDetailsHTTP (exampleWorld missingServer (Inr []) None)
        exampleClient 76) = Inl (ApiStatusError 404 ''not found'')"
    by (simp add: getRegularStackDetailsHTTP_def exampleWorld_def missingServer_def
        statusResponse_def)
  have fallback: "shouldFallbackToEdge (exampleWorld missingServer (Inr []) None)
      (ApiStatusError 404 ''not found'')"
    by (simp add: shouldFallbackToEdge_def)
  have forbidden: "fst (getRegularStackDetailsHTTP (exampleWorld forbiddingServer (Inr []) None)
        exampleClient 76) = Inl (ApiStatusError 403 ''access denied'')"
    by (simp add: getRegularStackDetailsHTTP_def exampleWorld_def forbiddingServer_def
        statusResponse_def)
  have terminal: "\<not> shouldFallbackToEdge (exampleWorld forbiddingServer (Inr []) None)
      (ApiStatusError 403 ''access denied'')"
    by (simp add: shouldFallbackToEdge_def isEdgeStackErrorMessage_def Contains_def
        ToLower_def isASCII_def lowerRun_def toLowerChar_def sublist_Cons_right fmt_d_def
        nat_dec.simps digit_char_def)
  have found: "fst (getRegularStackDetailsHTTP (exampleWorld rejectingServer (Inr []) None)
        exampleClient 42) = Inr (21, Slice exampleEnv)"
    by (simp add: getRegularStackDetailsHTTP_def exampleWorld_def rejectingServer_def
        okResponse_def parseStackEnv_def decode_defs exampleTexts_def envText_def
        asciiEqualFold_def toLowerChar_def exampleEnv_def len_def)
  have names: "firstSeenNames (elems (Slice exampleEnv)) = [''DYNU_TOKEN'', ''TELEGRAM_TOKEN'']"
    by (simp add: firstSeenNames_def exampleEnv_def)
  note a = GetStackEnvNames_paths [of edgeOnlyClient
      "exampleWorld rejectingServer (Inr []) None" 42, THEN conjunct1, rule_format, OF unconfigured]
  note b = GetStackEnvNames_paths [of exampleClient "exampleWorld missingServer (Inr []) None" 76
      "ApiStatusError 404 ''not found''", THEN conjunct2, THEN conjunct1, rule_format,
      OF conjI [OF conjunct1 [OF configured] conjI [OF conjunct2 [OF configured]
        conjI [OF missing fallback]]]]
  note c = GetStackEnvNames_paths [of exampleClient "exampleWorld forbiddingServer (Inr []) None"
      76 "ApiStatusError 403 ''access denied''", THEN conjunct2, THEN conjunct2, THEN conjunct1,
      rule_format,
      OF conjI [OF conjunct1 [OF configured] conjI [OF conjunct2 [OF configured]
        conjI [OF forbidden terminal]]]]
  note d = GetStackEnvNames_paths [of exampleClient "exampleWorld rejectingServer (Inr []) None"
      42 _ 21 "Slice exampleEnv", THEN conjunct2, THEN conjunct2, THEN conjunct2, THEN conjunct1,
      rule_format,
      OF conjI [OF conjunct1 [OF configured] conjI [OF conjunct2 [OF configured] found]]]
  note e = GetStackEnvNames_paths [of exampleClient "exampleWorld missingServer (Inr []) None" 76,
      THEN conjunct2, THEN conjunct2, THEN conjunct2, THEN conjunct2]
  show ?thesis
    by (rule conjI [OF a conjI [OF b conjI [OF c conjI [OF d [unfolded names] e]]]])
qed

subsection \<open>Listing the stacks\<close>

text \<open>
  C4. The regular list is called first. When it succeeds with a non-empty list the
  result is its items converted, each with an empty, non-nil, list of environment
  groups, and no further call is made. When it is empty or fails the edge list is
  called next; its items converted are the result when it succeeds. When the edge list
  fails, the error names both causes if the regular list had failed too, and is the
  edge error wrapped otherwise.
\<close>

theorem GetStacks_paths:
  "(fst (listRegularStacksHTTP w c) = Inr regularStacks \<and> len regularStacks > 0 \<longrightarrow>
      GetStacks w c
        = (Inr (Slice (map (ConvertRegularStackToStack (FormatRFC3339 w)) (elems regularStacks))),
           snd (listRegularStacksHTTP w c)) \<and>
      list_all (\<lambda>s. Stack_EnvironmentGroupIds s = Slice [])
        (map (ConvertRegularStackToStack (FormatRFC3339 w)) (elems regularStacks))) \<and>
   ((fst (listRegularStacksHTTP w c) = Inr regularStacks \<and> len regularStacks = 0) \<or>
    fst (listRegularStacksHTTP w c) = Inl e \<longrightarrow>
      snd (GetStacks w c) = snd (listRegularStacksHTTP w c) @ [CallListEdgeStacks] \<and>
      (ListEdgeStacks w = Inr edgeStacks \<longrightarrow>
         fst (GetStacks w c)
           = Inr (Slice (map (ConvertEdgeStackToStack (FormatRFC3339 w)) edgeStacks)))) \<and>
   (fst (listRegularStacksHTTP w c) = Inl e \<and> ListEdgeStacks w = Inl edgeErr \<longrightarrow>
      fst (GetStacks w c)
        = Inl (WrapError (''failed to list regular stacks: '' @ Error e
                          @ '' (edge stacks also failed: '' @ Error edgeErr @ '')'') e)) \<and>
   (fst (listRegularStacksHTTP w c) = Inr regularStacks \<and> len regularStacks = 0 \<and>
    ListEdgeStacks w = Inl edgeErr \<longrightarrow>
      fst (GetStacks w c) = Inl (Errorf_w ''failed to list edge stacks: '' edgeErr []))"
proof -
  obtain r calls where r: "listRegularStacksHTTP w c = (r, calls)"
    by (cases "listRegularStacksHTTP w c")
  show ?thesis
    by (simp add: GetStacks_def r ConvertRegularStackToStack_def list_all_iff
        split: sum.splits)
qed

theorem GetStacks_paths_witness:
  "fst (GetStacks (exampleWorld (listingServer ''stacks'') (Inr exampleEdgeStacks) None) exampleClient)
     = Inr (Slice [\<lparr>Stack_ID = 10, Stack_Name = ''regular-stack'',
                    Stack_CreatedAt = ''2023-11-14T22:13:20Z'',
                    Stack_EnvironmentGroupIds = Slice []\<rparr>]) \<and>
   fst (GetStacks (exampleWorld (listingServer ''none'') (Inr exampleEdgeStacks) None) exampleClient)
     = Inr (Slice [\<lparr>Stack_ID = 1, Stack_Name = ''stack1'',
                    Stack_CreatedAt = ''2023-11-14T22:13:20Z'',
                    Stack_EnvironmentGroupIds = Slice [1, 2]\<rparr>,
                   \<lparr>Stack_ID = 2, Stack_Name = ''stack2'',
                    Stack_CreatedAt = ''2023-11-14T22:13:20Z'',
                    Stack_EnvironmentGroupIds = Slice [3]\<rparr>]) \<and>
   fst (GetStacks (exampleWorld unreachableServer (Inr exampleEdgeStacks) None) edgeOnlyClient)
     = Inr (Slice (map (ConvertEdgeStackToStack (\<lambda>t. ''2023-11-14T22:13:20Z'')) exampleEdgeStacks)) \<and>
   fst (GetStacks (exampleWorld unreachableServer (Inl (ErrorString ''failed to list stacks'')) None)
          edgeOnlyClient)
     = Inl (WrapError ''failed to list regular stacks: failed to make http request: connection refused (edge stacks also failed: failed to list stacks)''
              (WrapError ''failed to make http request: connection refused''
                 (ErrorString ''connection refused''))) \<and>
   fst (GetStacks (exampleWorld (listingServer ''none'') (Inl (ErrorString ''failed to list stacks''))
          None) exampleClient)
     = Inl (WrapError ''failed to list edge stacks: failed to list stacks''
              (ErrorString ''failed to list stacks''))"
proof -
  let ?A = "exampleWorld (listingServer ''stacks'') (Inr exampleEdgeStacks) None"
  let ?B = "exampleWorld (listingServer ''none'') (Inr exampleEdgeStacks) None"
  let ?C = "exampleWorld unreachableServer (Inr exampleEdgeStacks) None"
  let ?D = "exampleWorld unreachableServer (Inl (ErrorString ''failed to list stacks'')) None"
  let ?E = "exampleWorld (listingServer ''none'') (Inl (ErrorString ''failed to list stacks'')) None"
  let ?refused = "WrapError ''failed to make http request: connection refused''
                    (ErrorString ''connection refused'')"
  have A: "fst (listRegularStacksHTTP ?A exampleClient) = Inr (Slice [exampleRegularStack])
      \<and> len (Slice [exampleRegularStack]) > 0"
    by (simp add: listRegularStacksHTTP_def exampleWorld_def listingServer_def okResponse_def
        len_def)
  have B: "(fst (listRegularStacksHTTP ?B exampleClient) = Inr (Slice [])
      \<and> len (Slice [] :: RegularStack slice) = 0)
      \<or> fst (listRegularStacksHTTP ?B exampleClient) = Inl (ErrorString [])"
    by (simp add: listRegularStacksHTTP_def exampleWorld_def listingServer_def okResponse_def
        len_def)
  have Bedge: "ListEdgeStacks ?B = Inr exampleEdgeStacks" by (simp add: exampleWorld_def)
  have C: "(fst (listRegularStacksHTTP ?C edgeOnlyClient) = Inr NilSlice
      \<and> len (NilSlice :: RegularStack slice) = 0)
      \<or> fst (listRegularStacksHTTP ?C edgeOnlyClient) = Inl ?refused"
    by (simp add: listRegularStacksHTTP_def exampleWorld_def unreachableServer_def Errorf_w_def)
  have Cedge: "ListEdgeStacks ?C = Inr exampleEdgeStacks" by (simp add: exampleWorld_def)
  have D: "fst (listRegularStacksHTTP ?D edgeOnlyClient) = Inl ?refused
      \<and> ListEdgeStacks ?D = Inl (ErrorString ''failed to list stacks'')"
    by (simp add: listRegularStacksHTTP_def exampleWorld_def unreachableServer_def Errorf_w_def)
  have E: "fst (listRegularStacksHTTP ?E exampleClient) = Inr (Slice [])
      \<and> len (Slice [] :: RegularStack slice) = 0
      \<and> ListEdgeStacks ?E = Inl (ErrorString ''failed to list stacks'')"
    by (simp add: listRegularStacksHTTP_def exampleWorld_def listingServer_def okResponse_def
        len_def)
  note a = GetStacks_paths [of ?A exampleClient "Slice [exampleRegularStack]",
      THEN conjunct1, rule_format, OF A, THEN conjunct1]
  note b = GetStacks_paths [of ?B exampleClient "Slice []" "ErrorString []" exampleEdgeStacks,
      THEN conjunct2, THEN conjunct1, rule_format, OF B, THEN conjunct2, rule_format, OF Bedge]
  note c = GetStacks_paths [of ?C edgeOnlyClient NilSlice ?refused exampleEdgeStacks,
      THEN conjunct2, THEN conjunct1, rule_format, OF C, THEN conjunct2, rule_format, OF Cedge]
  note d = GetStacks_paths [of ?D edgeOnlyClient _ ?refused _ "ErrorString ''failed to list stacks''",
      THEN conjunct2, THEN conjunct2, THEN conjunct1, rule_format, OF D]
  note e = GetStacks_paths [of ?E exampleClient "Slice []" _ _ "ErrorString ''failed to list stacks''",
      THEN conjunct2, THEN conjunct2, THEN conjunct2, rule_format, OF E]
  have fmt: "\<And>h l u. FormatRFC3339 (exampleWorld h l u) = (\<lambda>t. ''2023-11-14T22:13:20Z'')"
    by (simp add: exampleWorld_def)
  from a b c d e show ?thesis
    by (simp add: fmt ConvertRegularStackToStack_def ConvertEdgeStackToStack_def
        exampleRegularStack_def exampleEdgeStacks_def Errorf_w_def)
qed

section \<open>Properties of the environment codec\<close>

lemma hasEnvValues_iff:
  "hasEnvValues xs \<longleftrightarrow> \<not> list_all (\<lambda>entry. Name entry = [] \<and> Value entry = []) xs"
  by (induction xs) auto

lemma usable_iff_not_degenerate:
  "(len env = 0 \<or> hasEnvValues (elems env)) = (\<not> degenerate env)"
  by (auto simp: degenerate_def hasEnvValues_iff len_def)

lemma not_degenerate_iff:
  "\<not> degenerate env \<longleftrightarrow>
     len env = 0 \<or> (\<exists>entry \<in> set (elems env). Name entry \<noteq> [] \<or> Value entry \<noteq> [])"
  by (auto simp: degenerate_def list_all_iff)

lemma parseStackEnv_null:
  "raw = [] \<or> raw = ''null'' \<Longrightarrow> parseStackEnv w raw = Inr NilSlice"
  by (erule disjE) (simp_all add: parseStackEnv_def)

lemma parseStackEnv_primary:
  "raw \<noteq> [] \<Longrightarrow> raw \<noteq> ''null'' \<Longrightarrow> unmarshalStackEnv w raw = Inr env \<Longrightarrow>
   \<not> degenerate env \<Longrightarrow> parseStackEnv w raw = Inr env"
  by (simp add: parseStackEnv_def usable_iff_not_degenerate)

lemma parseStackEnv_alt:
  "raw \<noteq> [] \<Longrightarrow> raw \<noteq> ''null'' \<Longrightarrow> primaryFailed w raw \<Longrightarrow>
   parseStackEnv w raw =
     (case unmarshalStackEnvAlt w raw of
        Inl e \<Rightarrow> Inl (Errorf_w ''failed to parse stack env: '' e [])
      | Inr alt \<Rightarrow>
          Inr (if len alt = 0 then NilSlice
               else Slice (map (\<lambda>entry. \<lparr>Name = Alt_Name entry, Value = Alt_Value entry\<rparr>)
                             (elems alt))))"
  by (simp add: parseStackEnv_def primaryFailed_def usable_iff_not_degenerate split: sum.splits)

lemma parseStackEnv_isl:
  "isl (parseStackEnv w raw) \<longleftrightarrow>
     raw \<noteq> [] \<and> raw \<noteq> ''null'' \<and> primaryFailed w raw \<and> isl (unmarshalStackEnvAlt w raw)"
proof (cases "raw = [] \<or> raw = ''null''")
  case True
  then have "parseStackEnv w raw = Inr NilSlice" by (rule parseStackEnv_null)
  with True show ?thesis by (elim disjE) simp_all
next
  case False
  then have ne: "raw \<noteq> []" "raw \<noteq> ''null''" by simp_all
  show ?thesis
  proof (cases "primaryFailed w raw")
    case True
    show ?thesis
      unfolding parseStackEnv_alt [OF ne True] using ne True
      by (simp split: sum.splits)
  next
    case False
    then obtain env where env: "unmarshalStackEnv w raw = Inr env" "\<not> degenerate env"
      by (cases "unmarshalStackEnv w raw") (simp_all add: primaryFailed_def)
    have "parseStackEnv w raw = Inr env" by (rule parseStackEnv_primary [OF ne env])
    with False show ?thesis by simp
  qed
qed

lemma parseStackEnv_not_json:
  assumes "raw \<noteq> []" and "raw \<noteq> ''null''" and "ScanJSON w raw = None"
  shows "parseStackEnv w raw
           = Inl (Errorf_w ''failed to parse stack env: ''
                    (UnmarshalError w ''[]stackEnvEntryAlt'' raw) [])"
proof -
  note u = unmarshal_not_json [OF assms(3)]
  have pf: "primaryFailed w raw" by (simp add: primaryFailed_def u [THEN conjunct1])
  show ?thesis
    unfolding parseStackEnv_alt [OF assms(1,2) pf] by (simp add: u [THEN conjunct2])
qed


text \<open>
  C8, as the specification states it, fails: the decode that is used need not be
  non-degenerate. The text of an array holding one empty object is decoded by both
  decoders to one blank entry; the codec then returns the alternate decode, one entry
  with neither name nor value, which is degenerate.
\<close>

theorem parseStackEnv_degenerate_counterexample:
  "unmarshalStackEnv (exampleWorld missingServer (Inr []) None) ''[{}]''
     = Inr (Slice [\<lparr>Name = [], Value = []\<rparr>]) \<and>
   unmarshalStackEnvAlt (exampleWorld missingServer (Inr []) None) ''[{}]''
     = Inr (Slice [\<lparr>Alt_Name = [], Alt_Value = []\<rparr>]) \<and>
   parseStackEnv (exampleWorld missingServer (Inr []) None) ''[{}]''
     = Inr (Slice [\<lparr>Name = [], Value = []\<rparr>]) \<and>
   degenerate (Slice [\<lparr>Name = [], Value = []\<rparr>])"
  by (simp add: parseStackEnv_def decode_defs exampleWorld_def exampleTexts_def envText_def
      len_def degenerate_def)


text \<open>
  C8, amended. On empty or null input the codec returns the nil slice and no error.
  Otherwise a primary decode with no entry is accepted as it is, as for the text of the
  empty array, and so is a primary decode with an entry that carries a name or a value.
  When the primary decode failed to capture the values (it returned an error, or it
  yielded entries none of which carries a name or a value) the alternate decode is tried
  and decides, whether or not it is degenerate: its error is returned wrapped as the
  parse error, its entries are returned converted, the nil slice when there is none. The
  codec returns an error exactly when the input is neither empty nor null, the primary
  decode failed in that sense and the alternate decode returned an error; it does when
  both decoders return an error, as for a text that is not JSON and for the text of a
  value that is neither an array nor null.
\<close>

theorem parseStackEnv_cases:
  "(raw = [] \<or> raw = ''null'' \<longrightarrow> parseStackEnv w raw = Inr NilSlice) \<and>
   (raw \<noteq> [] \<and> raw \<noteq> ''null'' \<and> unmarshalStackEnv w raw = Inr env \<and> len env = 0 \<longrightarrow>
      parseStackEnv w raw = Inr env) \<and>
   (raw \<noteq> [] \<and> raw \<noteq> ''null'' \<and> unmarshalStackEnv w raw = Inr env \<and>
    (\<exists>entry \<in> set (elems env). Name entry \<noteq> [] \<or> Value entry \<noteq> []) \<longrightarrow>
      parseStackEnv w raw = Inr env) \<and>
   (raw \<noteq> [] \<and> raw \<noteq> ''null'' \<and> primaryFailed w raw \<longrightarrow>
      parseStackEnv w raw =
        (case unmarshalStackEnvAlt w raw of
           Inl e \<Rightarrow> Inl (Errorf_w ''failed to parse stack env: '' e [])
         | Inr alt \<Rightarrow>
             Inr (if len alt = 0 then NilSlice
                  else Slice (map (\<lambda>entry. \<lparr>Name = Alt_Name entry, Value = Alt_Value entry\<rparr>)
                                (elems alt))))) \<and>
   (isl (parseStackEnv w raw) \<longleftrightarrow>
      raw \<noteq> [] \<and> raw \<noteq> ''null'' \<and> primaryFailed w raw \<and> isl (unmarshalStackEnvAlt w raw)) \<and>
   (raw \<noteq> [] \<and> raw \<noteq> ''null'' \<and> isl (unmarshalStackEnv w raw) \<and>
    isl (unmarshalStackEnvAlt w raw) \<longrightarrow> isl (parseStackEnv w raw)) \<and>
   (raw \<noteq> [] \<and> raw \<noteq> ''null'' \<and> ScanJSON w raw = None \<longrightarrow>
      parseStackEnv w raw
        = Inl (Errorf_w ''failed to parse stack env: ''
                 (UnmarshalError w ''[]stackEnvEntryAlt'' raw) [])) \<and>
   (raw \<noteq> [] \<and> raw \<noteq> ''null'' \<and> ScanJSON w raw = Some (JArray []) \<longrightarrow>
      parseStackEnv w raw = Inr (Slice [])) \<and>
   (raw \<noteq> [] \<and> raw \<noteq> ''null'' \<and> ScanJSON w raw = Some v \<and> v \<noteq> JNull \<and>
    (\<forall>vs. v \<noteq> JArray vs) \<longrightarrow> isl (parseStackEnv w raw))"
proof (intro conjI impI)
  assume "raw = [] \<or> raw = ''null''"
  then show "parseStackEnv w raw = Inr NilSlice" by (rule parseStackEnv_null)
next
  assume a: "raw \<noteq> [] \<and> raw \<noteq> ''null'' \<and> unmarshalStackEnv w raw = Inr env \<and> len env = 0"
  then have "\<not> degenerate env" by (simp add: not_degenerate_iff)
  with a show "parseStackEnv w raw = Inr env" by (simp add: parseStackEnv_primary)
next
  assume a: "raw \<noteq> [] \<and> raw \<noteq> ''null'' \<and> unmarshalStackEnv w raw = Inr env \<and>
    (\<exists>entry \<in> set (elems env). Name entry \<noteq> [] \<or> Value entry \<noteq> [])"
  then have "\<not> degenerate env" by (simp add: not_degenerate_iff)
  with a show "parseStackEnv w raw = Inr env" by (simp add: parseStackEnv_primary)
next
  assume a: "raw \<noteq> [] \<and> raw \<noteq> ''null'' \<and> primaryFailed w raw"
  show "parseStackEnv w raw =
        (case unmarshalStackEnvAlt w raw of
           Inl e \<Rightarrow> Inl (Errorf_w ''failed to parse stack env: '' e [])
         | Inr alt \<Rightarrow>
             Inr (if len alt = 0 then NilSlice
                  else Slice (map (\<lambda>entry. \<lparr>Name = Alt_Name entry, Value = Alt_Value entry\<rparr>)
                                (elems alt))))"
    by (rule parseStackEnv_alt [OF a [THEN conjunct1] a [THEN conjunct2, THEN conjunct1]
          a [THEN conjunct2, THEN conjunct2]])
next
  show "isl (parseStackEnv w raw) \<longleftrightarrow>
      raw \<noteq> [] \<and> raw \<noteq> ''null'' \<and> primaryFailed w raw \<and> isl (unmarshalStackEnvAlt w raw)"
    by (rule parseStackEnv_isl)
next
  assume a: "raw \<noteq> [] \<and> raw \<noteq> ''null'' \<and> isl (unmarshalStackEnv w raw) \<and>
    isl (unmarshalStackEnvAlt w raw)"
  then have "primaryFailed w raw"
    by (cases "unmarshalStackEnv w raw") (simp_all add: primaryFailed_def)
  with a show "isl (parseStackEnv w raw)" by (simp add: parseStackEnv_isl)
next
  assume a: "raw \<noteq> [] \<and> raw \<noteq> ''null'' \<and> ScanJSON w raw = None"
  show "parseStackEnv w raw
        = Inl (Errorf_w ''failed to parse stack env: ''
                 (UnmarshalError w ''[]stackEnvEntryAlt'' raw) [])"
    by (rule parseStackEnv_not_json [OF a [THEN conjunct1] a [THEN conjunct2, THEN conjunct1]
          a [THEN conjunct2, THEN conjunct2]])
next
  assume a: "raw \<noteq> [] \<and> raw \<noteq> ''null'' \<and> ScanJSON w raw = Some (JArray [])"
  then have "unmarshalStackEnv w raw = Inr (Slice [])" by (simp add: unmarshal_empty_array)
  moreover have "\<not> degenerate (Slice [])" by (simp add: degenerate_def len_def)
  ultimately show "parseStackEnv w raw = Inr (Slice [])"
    using a by (simp add: parseStackEnv_primary)
next
  assume a: "raw \<noteq> [] \<and> raw \<noteq> ''null'' \<and> ScanJSON w raw = Some v \<and> v \<noteq> JNull \<and>
    (\<forall>vs. v \<noteq> JArray vs)"
  then have u: "isl (unmarshalStackEnv w raw) \<and> isl (unmarshalStackEnvAlt w raw)"
    by (simp add: unmarshal_not_array)
  then have "primaryFailed w raw"
    by (cases "unmarshalStackEnv w raw") (simp_all add: primaryFailed_def)
  with a u show "isl (parseStackEnv w raw)" by (simp add: parseStackEnv_isl)
qed

theorem parseStackEnv_cases_witness:
  "parseStackEnv (exampleWorld missingServer (Inr []) None) [] = Inr NilSlice \<and>
   parseStackEnv (exampleWorld missingServer (Inr []) None) ''null'' = Inr NilSlice \<and>
   parseStackEnv (exampleWorld missingServer (Inr []) None) ''[]'' = Inr (Slice []) \<and>
   parseStackEnv (exampleWorld missingServer (Inr []) None) envText = Inr (Slice exampleEnv) \<and>
   parseStackEnv ((exampleWorld missingServer (Inr []) None)\<lparr>NameTag := ''key'', ValueTag := ''val''\<rparr>)
       ''[{Name:X,Value:y}]''
     = Inr (Slice [\<lparr>Name = ''X'', Value = ''y''\<rparr>]) \<and>
   isl (parseStackEnv (exampleWorld missingServer (Inr []) None) ''[{Name:5}]'') \<and>
   parseStackEnv (exampleWorld missingServer (Inr []) None) ''garbage''
     = Inl (Errorf_w ''failed to parse stack env: ''
              (ErrorString ''json: cannot unmarshal into []stackEnvEntryAlt'') []) \<and>
   isl (parseStackEnv (exampleWorld missingServer (Inr []) None) ''{}'')"
proof -
  let ?w = "exampleWorld missingServer (Inr []) None"
  let ?w' = "(exampleWorld missingServer (Inr []) None)\<lparr>NameTag := ''key'', ValueTag := ''val''\<rparr>"
  note ev = decode_defs exampleWorld_def exampleTexts_def envText_def asciiEqualFold_def
    toLowerChar_def
  have a: "parseStackEnv ?w [] = Inr NilSlice"
    using parseStackEnv_cases [of "[]" ?w, THEN conjunct1] by simp
  have b: "parseStackEnv ?w ''null'' = Inr NilSlice"
    using parseStackEnv_cases [of "''null''" ?w, THEN conjunct1] by simp
  have c: "parseStackEnv ?w ''[]'' = Inr (Slice [])"
    using parseStackEnv_cases [of "''[]''" ?w "Slice []", THEN conjunct2, THEN conjunct1]
    by (simp add: ev len_def)
  have d: "parseStackEnv ?w envText = Inr (Slice exampleEnv)"
    using parseStackEnv_cases [of envText ?w "Slice exampleEnv",
        THEN conjunct2, THEN conjunct2, THEN conjunct1]
    by (simp add: ev exampleEnv_def)
  have e: "parseStackEnv ?w' ''[{Name:X,Value:y}]'' = Inr (Slice [\<lparr>Name = ''X'', Value = ''y''\<rparr>])"
    using parseStackEnv_cases [of "''[{Name:X,Value:y}]''" ?w',
        THEN conjunct2, THEN conjunct2, THEN conjunct2, THEN conjunct1]
    by (simp add: ev primaryFailed_def degenerate_def len_def)
  have f: "isl (parseStackEnv ?w ''[{Name:5}]'')"
    using parseStackEnv_cases [of "''[{Name:5}]''" ?w,
        THEN conjunct2, THEN conjunct2, THEN conjunct2, THEN conjunct2, THEN conjunct2,
        THEN conjunct1]
    by (simp add: ev)
  have g: "parseStackEnv ?w ''garbage''
      = Inl (Errorf_w ''failed to parse stack env: ''
               (ErrorString ''json: cannot unmarshal into []stackEnvEntryAlt'') [])"
    using parseStackEnv_cases [of "''garbage''" ?w,
        THEN conjunct2, THEN conjunct2, THEN conjunct2, THEN conjunct2, THEN conjunct2,
        THEN conjunct2, THEN conjunct1]
    by (simp add: exampleWorld_def exampleTexts_def envText_def)
  have h: "isl (parseStackEnv ?w ''{}'')"
    using parseStackEnv_cases [of "''{}''" ?w _ "JObject []",
        THEN conjunct2, THEN conjunct2, THEN conjunct2, THEN conjunct2, THEN conjunct2,
        THEN conjunct2, THEN conjunct2, THEN conjunct2]
    by (simp add: exampleWorld_def exampleTexts_def envText_def)
  show ?thesis
    by (rule conjI [OF a conjI [OF b conjI [OF c conjI [OF d conjI [OF e conjI [OF f
          conjI [OF g h]]]]]]])
qed






section \<open>Properties of the tool handler\<close>

lemma parseEntries_valid:
  "entryOverride entry = Some x \<Longrightarrow>
   parseEntries fmtV (entry # rest) acc = parseEntries fmtV rest (acc @ [x])"
  by (cases entry)
     (simp_all add: entryOverride_def mapIndex_def split: option.splits goany.splits if_splits)

lemma parseEntries_invalid:
  "entryOverride entry = None \<Longrightarrow> isl (parseEntries fmtV (entry # rest) acc)"
  by (cases entry)
     (simp_all add: entryOverride_def mapIndex_def split: option.splits goany.splits if_splits)

lemma parseEntries_isl:
  "isl (parseEntries fmtV es acc) \<longleftrightarrow> (\<exists>entry \<in> set es. entryOverride entry = None)"
proof (induction es arbitrary: acc)
  case Nil
  show ?case by simp
next
  case (Cons entry es)
  show ?case
  proof (cases "entryOverride entry")
    case None
    then show ?thesis using parseEntries_invalid [OF None, of fmtV es acc] by simp
  next
    case (Some x)
    then show ?thesis
      using Cons.IH [of "acc @ [x]"] by (simp only: parseEntries_valid [OF Some]) simp
  qed
qed

lemma parseEntries_value:
  "\<not> isl (parseEntries fmtV es acc) \<Longrightarrow>
   parseEntries fmtV es acc = Inr (acc @ List.map_filter entryOverride es)"
proof (induction es arbitrary: acc)
  case Nil
  show ?case by (simp add: List.map_filter_simps)
next
  case (Cons entry es)
  show ?case
  proof (cases "entryOverride entry")
    case None
    then show ?thesis using parseEntries_invalid [OF None, of fmtV es acc] Cons.prems by simp
  next
    case (Some x)
    have "\<not> isl (parseEntries fmtV es (acc @ [x]))"
      using Cons.prems unfolding parseEntries_valid [OF Some] .
    then have "parseEntries fmtV es (acc @ [x]) = Inr ((acc @ [x]) @ List.map_filter entryOverride es)"
      by (rule Cons.IH)
    then show ?thesis
      by (simp only: parseEntries_valid [OF Some]) (simp add: List.map_filter_simps Some)
  qed
qed

lemma isl_case_sum:
  "isl (case x of Inl e \<Rightarrow> Inl e | Inr r \<Rightarrow> Inr (f r)) = isl x"
  by (cases x) simp_all

lemma entryOverride_None_iff:
  "entryOverride entry = None \<longleftrightarrow>
     \<not> (\<exists>m n v. entry = AnyMap m \<and> m ''name'' = Some (AnyString n) \<and> n \<noteq> [] \<and>
          m ''value'' = Some (AnyString v))"
  by (cases entry)
     (auto simp: entryOverride_def split: option.splits goany.splits)


text \<open>
  C10. Parsing the overrides returns an error exactly when some entry denotes no
  override, that is, when it is not an object carrying a non-empty string name and a
  string value; otherwise it returns the overrides the entries denote, in order. An
  array of length zero, nil or not, gives the empty non-nil list. When the parsing
  fails the handler makes no call of the client's update; when the array has length
  zero and the other parameters parse, the handler calls the client's update once,
  with the empty non-nil list of overrides.
\<close>

theorem parseStackEnvOverrides_boundary:
  fixes s :: "'req toolkit"
  shows
  "(isl (parseStackEnvOverrides fmtV entries) \<longleftrightarrow>
      (\<exists>entry \<in> set (elems entries). entryOverride entry = None)) \<and>
   (entryOverride entry = None \<longleftrightarrow>
      \<not> (\<exists>m n v. entry = AnyMap m \<and> m ''name'' = Some (AnyString n) \<and> n \<noteq> [] \<and>
           m ''value'' = Some (AnyString v))) \<and>
   (\<not> isl (parseStackEnvOverrides fmtV entries) \<longrightarrow>
      parseStackEnvOverrides fmtV entries
        = Inr (Slice (List.map_filter entryOverride (elems entries)))) \<and>
   (len entries = 0 \<longrightarrow> parseStackEnvOverrides fmtV entries = Inr (Slice [])) \<and>
   (GetArrayOfObjects s request ''envOverrides'' False = Inr raw \<and>
    isl (parseStackEnvOverrides (FormatV s) raw) \<longrightarrow>
      snd (HandleUpdateStack s request) = []) \<and>
   (GetInt s request ''id'' True = Inr sid \<and> GetString s request ''file'' True = Inr file \<and>
    GetArrayOfIntegers s request ''environmentGroupIds'' True = Inr environmentGroupIds \<and>
    GetArrayOfObjects s request ''envOverrides'' False = Inr raw \<and> len raw = 0 \<longrightarrow>
      snd (HandleUpdateStack s request) = [(sid, file, environmentGroupIds, Slice [])])"
proof (intro conjI impI)
  show "isl (parseStackEnvOverrides fmtV entries) \<longleftrightarrow>
      (\<exists>entry \<in> set (elems entries). entryOverride entry = None)"
  proof (cases "len entries = 0")
    case True
    then show ?thesis by (simp add: parseStackEnvOverrides_def len_def)
  next
    case False
    then have "isl (parseStackEnvOverrides fmtV entries)
        = isl (parseEntries fmtV (elems entries) [])"
      by (simp add: parseStackEnvOverrides_def isl_case_sum)
    then show ?thesis by (simp add: parseEntries_isl)
  qed
next
  show "entryOverride entry = None \<longleftrightarrow>
      \<not> (\<exists>m n v. entry = AnyMap m \<and> m ''name'' = Some (AnyString n) \<and> n \<noteq> [] \<and>
           m ''value'' = Some (AnyString v))"
    by (rule entryOverride_None_iff)
next
  assume ok: "\<not> isl (parseStackEnvOverrides fmtV entries)"
  show "parseStackEnvOverrides fmtV entries
        = Inr (Slice (List.map_filter entryOverride (elems entries)))"
  proof (cases "len entries = 0")
    case True
    then show ?thesis by (simp add: parseStackEnvOverrides_def len_def List.map_filter_simps)
  next
    case False
    with ok have "\<not> isl (parseEntries fmtV (elems entries) [])"
      by (simp add: parseStackEnvOverrides_def isl_case_sum)
    then have "parseEntries fmtV (elems entries) []
        = Inr ([] @ List.map_filter entryOverride (elems entries))"
      by (rule parseEntries_value)
    with False show ?thesis by (simp add: parseStackEnvOverrides_def)
  qed
next
  assume "len entries = 0"
  then show "parseStackEnvOverrides fmtV entries = Inr (Slice [])"
    by (simp add: parseStackEnvOverrides_def)
next
  assume a: "GetArrayOfObjects s request ''envOverrides'' False = Inr raw \<and>
    isl (parseStackEnvOverrides (FormatV s) raw)"
  then obtain e where e: "parseStackEnvOverrides (FormatV s) raw = Inl e"
    by (cases "parseStackEnvOverrides (FormatV s) raw") simp_all
  from a show "snd (HandleUpdateStack s request) = []"
    by (simp add: HandleUpdateStack_def e split: sum.splits)
next
  assume "GetInt s request ''id'' True = Inr sid \<and> GetString s request ''file'' True = Inr file \<and>
    GetArrayOfIntegers s request ''environmentGroupIds'' True = Inr environmentGroupIds \<and>
    GetArrayOfObjects s request ''envOverrides'' False = Inr raw \<and> len raw = 0"
  then show "snd (HandleUpdateStack s request) = [(sid, file, environmentGroupIds, Slice [])]"
    by (simp add: HandleUpdateStack_def parseStackEnvOverrides_def)
qed

theorem parseStackEnvOverrides_boundary_witness:
  "isl (parseStackEnvOverrides (\<lambda>v. ''<value>'')
          (Slice [AnyMap [''name'' \<mapsto> AnyString ''A'', ''value'' \<mapsto> AnyString ''1''],
                  AnyMap [''name'' \<mapsto> AnyString [], ''value'' \<mapsto> AnyString ''2'']])) \<and>
   snd (HandleUpdateStack exampleToolkit
          (Slice [AnyMap [''name'' \<mapsto> AnyString ''A'', ''value'' \<mapsto> AnyString ''1''],
                  AnyMap [''name'' \<mapsto> AnyString [], ''value'' \<mapsto> AnyString ''2'']])) = [] \<and>
   parseStackEnvOverrides (\<lambda>v. ''<value>'')
          (Slice [AnyMap [''name'' \<mapsto> AnyString ''A'', ''value'' \<mapsto> AnyString ''1'']])
     = Inr (Slice [\<lparr>Name = ''A'', Value = ''1''\<rparr>]) \<and>
   parseStackEnvOverrides (\<lambda>v. ''<value>'') NilSlice = Inr (Slice []) \<and>
   snd (HandleUpdateStack exampleToolkit NilSlice) = [(42, ''version: 3'', [1, 2], Slice [])]"
proof -
  let ?f = "\<lambda>v::goany. ''<value>''"
  let ?bad = "Slice [AnyMap [''name'' \<mapsto> AnyString ''A'', ''value'' \<mapsto> AnyString ''1''],
                  AnyMap [''name'' \<mapsto> AnyString [], ''value'' \<mapsto> AnyString ''2'']]"
  let ?good = "Slice [AnyMap [''name'' \<mapsto> AnyString ''A'', ''value'' \<mapsto> AnyString ''1'']]"
  have fv: "FormatV exampleToolkit = ?f" by (simp add: exampleToolkit_def)
  have a: "isl (parseStackEnvOverrides ?f ?bad)"
    using parseStackEnvOverrides_boundary [where fmtV = ?f and entries = ?bad, THEN conjunct1]
    by (simp add: entryOverride_def)
  have b: "snd (HandleUpdateStack exampleToolkit ?bad) = []"
    using a parseStackEnvOverrides_boundary [where s = exampleToolkit and request = ?bad
        and raw = ?bad, THEN conjunct2, THEN conjunct2, THEN conjunct2, THEN conjunct2,
        THEN conjunct1]
    by (simp add: fv) (simp add: exampleToolkit_def)
  have c: "parseStackEnvOverrides ?f ?good = Inr (Slice [\<lparr>Name = ''A'', Value = ''1''\<rparr>])"
    using parseStackEnvOverrides_boundary [where fmtV = ?f and entries = ?good, THEN conjunct1]
      parseStackEnvOverrides_boundary [where fmtV = ?f and entries = ?good,
        THEN conjunct2, THEN conjunct2, THEN conjunct1]
    by (simp add: entryOverride_def List.map_filter_simps)
  have d: "parseStackEnvOverrides ?f NilSlice = Inr (Slice [])"
    using parseStackEnvOverrides_boundary [where fmtV = ?f and entries = NilSlice,
        THEN conjunct2, THEN conjunct2, THEN conjunct2, THEN conjunct1]
    by (simp add: len_def)
  have e: "snd (HandleUpdateStack exampleToolkit NilSlice) = [(42, ''version: 3'', [1, 2], Slice [])]"
    using parseStackEnvOverrides_boundary [where s = exampleToolkit and request = NilSlice
        and raw = NilSlice and sid = 42 and ?file = "''version: 3''"
        and environmentGroupIds = "[1, 2]",
        THEN conjunct2, THEN conjunct2, THEN conjunct2, THEN conjunct2, THEN conjunct2]
    by (simp add: len_def exampleToolkit_def)
  show ?thesis by (rule conjI [OF a conjI [OF b conjI [OF c conjI [OF d e]]]])
qed

end
